theory Spec2Isabelle
  imports Main "HOL-Library.AList" "HOL-Library.Multiset"
begin

section \<open>Data of remote\_data\_cmds.go\<close>

text \<open>
  The file \<^verbatim>\<open>remote_data_cmds.go\<close> holds the two commands \<^verbatim>\<open>pull\<close> and \<^verbatim>\<open>push\<close> and
  their per-file tasks \<^verbatim>\<open>fetchFile\<close> and \<^verbatim>\<open>uploadFile\<close>. Everything else they call
  (the repository opener, the build store, the API client, the parallel runner, the
  file system) lives in other packages. The commands are embedded as state-passing
  functions over a record of those collaborators; Go's \<^verbatim>\<open>error\<close> is a value, \<^verbatim>\<open>nil\<close>
  is \<open>None\<close>.
\<close>

datatype error = Error string

text \<open>\<^verbatim>\<open>buildstore.BuildDataFileInfo\<close>: the fields the commands read.\<close>

record BuildDataFileInfo =
  CommitID :: string
  Path :: string
  Size :: int
  ModTime :: string

text \<open>\<^verbatim>\<open>sourcegraph.RepoSpec\<close>, \<^verbatim>\<open>RepoRevSpec\<close> and \<^verbatim>\<open>BuildDataFileSpec\<close>, as the
  composite literals of the source fill them.\<close>

record RepoSpec =
  URI :: string

record RepoRevSpec =
  RepoSpec :: RepoSpec
  Rev :: string
  RevCommitID :: string

record BuildDataFileSpec =
  RepoRev :: RepoRevSpec
  SpecPath :: string

text \<open>The repository value that \<^verbatim>\<open>OpenRepo\<close> returns: \<^verbatim>\<open>repo.RootDir\<close>,
  \<^verbatim>\<open>repo.URI()\<close>, \<^verbatim>\<open>repo.CommitID\<close>.\<close>

record Repository =
  RootDir :: string
  RepoURI :: string
  RepoCommitID :: string

text \<open>The second result of \<^verbatim>\<open>BuildData.List\<close> is an interface value; the source asserts
  it to \<^verbatim>\<open>*sourcegraph.HTTPResponse\<close>. The assertion yields \<^verbatim>\<open>ok = false\<close> on a nil
  interface or another dynamic type, and a nil pointer with \<^verbatim>\<open>ok = true\<close> on a typed nil.\<close>

record HTTPResponse =
  StatusCode :: int

datatype Response = NilResponse | HTTPResponsePtr "HTTPResponse option" | OtherResponse

definition StatusNotFound :: int where
  "StatusNotFound = 404"

text \<open>\<^verbatim>\<open>os.FileInfo\<close> as \<^verbatim>\<open>uploadFile\<close> reads it: \<^verbatim>\<open>fi.Mode().IsRegular()\<close> and
  \<^verbatim>\<open>fi.Size()\<close>.\<close>

record FileInfo =
  IsRegular :: bool
  FileSize :: int

datatype RepositoryStore = RepositoryStore string

text \<open>A stream is named by the call that opened it.\<close>

datatype stream =
    RemoteFile BuildDataFileSpec
  | CreatedFile string
  | OpenedFile string

record PullCmd =
  List :: bool
  URLs :: bool

record PushCmd =
  PushList :: bool

record GlobalOpt =
  Verbose :: bool

text \<open>The four listing lines of the commands pass \<^verbatim>\<open>repo.URI\<close>, the method itself and not
  its result, to the format: what is printed there is a function value, not the URI.\<close>

datatype method_value = Method_URI

text \<open>The lines written through \<^verbatim>\<open>log\<close>, one constructor per format string of the
  source, with the arguments of the format (the size in bytes where the source prints
  kilobytes as a float).\<close>

datatype logmsg =
    Listing_remote method_value string
  | No_remote_build_files_found
  | Remote_build_files method_value string
  | Fetching string int
  | Fetched string int
  | Saved string
  | Listing_local method_value string
  | Local_build_files method_value string
  | Skipping_nonexistent string
  | Uploading string int
  | Uploaded string int
  | Fatal_line error

text \<open>The lines written to standard output through \<^verbatim>\<open>fmt\<close>.\<close>

datatype outline =
    File_line int string string
  | URL_line BuildDataFileSpec
  | Path_line string

text \<open>Every call of a collaborator is recorded, in order.\<close>

datatype call =
    Call_OpenRepo
  | Call_List RepoRevSpec
  | Call_NewRepositoryStore string
  | Call_AllDataFiles
  | Call_Get BuildDataFileSpec
  | Call_MkdirAll string
  | Call_Create string
  | Call_Copy stream stream
  | Call_Close stream
  | Call_Stat string
  | Call_Open string
  | Call_Upload BuildDataFileSpec stream
  | Call_NewRun nat

text \<open>A command either returns its \<^verbatim>\<open>error\<close> result to the caller or ends the process in
  \<^verbatim>\<open>log.Fatal\<close>.\<close>

datatype outcome = Return "error option" | Fatal error

section \<open>The collaborators\<close>

text \<open>
  The functions of other packages that the source calls, over a world \<open>'w\<close> they may read
  and change. \<open>completion\<close> is the order in which the tasks handed to the parallel runner
  complete.
\<close>

record 'w env =
  OpenRepo :: "'w \<Rightarrow> (error + Repository) \<times> 'w"
  BuildData_List :: "RepoRevSpec \<Rightarrow> 'w \<Rightarrow> (BuildDataFileInfo list \<times> Response \<times> error option) \<times> 'w"
  NewRepositoryStore :: "string \<Rightarrow> 'w \<Rightarrow> (error + RepositoryStore) \<times> 'w"
  FilePath :: "RepositoryStore \<Rightarrow> string \<Rightarrow> string \<Rightarrow> string"
  AllDataFiles :: "RepositoryStore \<Rightarrow> 'w \<Rightarrow> (error + BuildDataFileInfo list) \<times> 'w"
  BuildData_Get :: "BuildDataFileSpec \<Rightarrow> 'w \<Rightarrow> error option \<times> 'w"
  Dir :: "string \<Rightarrow> string"
  MkdirAll :: "RepositoryStore \<Rightarrow> string \<Rightarrow> 'w \<Rightarrow> error option \<times> 'w"
  Create :: "RepositoryStore \<Rightarrow> string \<Rightarrow> 'w \<Rightarrow> error option \<times> 'w"
  Copy :: "stream \<Rightarrow> stream \<Rightarrow> 'w \<Rightarrow> error option \<times> 'w"
  Close :: "stream \<Rightarrow> 'w \<Rightarrow> 'w"
  Stat :: "RepositoryStore \<Rightarrow> string \<Rightarrow> 'w \<Rightarrow> (error + FileInfo) \<times> 'w"
  Open :: "RepositoryStore \<Rightarrow> string \<Rightarrow> 'w \<Rightarrow> error option \<times> 'w"
  BuildData_Upload :: "BuildDataFileSpec \<Rightarrow> stream \<Rightarrow> 'w \<Rightarrow> error option \<times> 'w"
  completion :: "BuildDataFileInfo list \<Rightarrow> BuildDataFileInfo list"

text \<open>The state of a run: the world of the collaborators, the calls made so far, the
  streams opened and not yet closed, and the two outputs.\<close>

record 'w state =
  world :: 'w
  calls :: "call list"
  opened :: "stream list"
  logs :: "logmsg list"
  stdout :: "outline list"

definition start :: "'w \<Rightarrow> 'w state" where
  "start w = \<lparr>world = w, calls = [], opened = [], logs = [], stdout = []\<rparr>"

definition called :: "call \<Rightarrow> 'w \<Rightarrow> 'w state \<Rightarrow> 'w state" where
  "called c w s = s\<lparr>world := w, calls := calls s @ [c]\<rparr>"

definition log_Printf :: "logmsg \<Rightarrow> 'w state \<Rightarrow> 'w state" where
  "log_Printf m s = s\<lparr>logs := logs s @ [m]\<rparr>"

definition fmt_Println :: "outline \<Rightarrow> 'w state \<Rightarrow> 'w state" where
  "fmt_Println l s = s\<lparr>stdout := stdout s @ [l]\<rparr>"

definition verbose :: "GlobalOpt \<Rightarrow> logmsg \<Rightarrow> 'w state \<Rightarrow> 'w state" where
  "verbose g m s = (if Verbose g then log_Printf m s else s)"

definition call_OpenRepo :: "'w env \<Rightarrow> 'w state \<Rightarrow> (error + Repository) \<times> 'w state" where
  "call_OpenRepo env s =
     (case OpenRepo env (world s) of (r, w) \<Rightarrow> (r, called Call_OpenRepo w s))"

definition call_List ::
  "'w env \<Rightarrow> RepoRevSpec \<Rightarrow> 'w state \<Rightarrow>
     (BuildDataFileInfo list \<times> Response \<times> error option) \<times> 'w state" where
  "call_List env rr s =
     (case BuildData_List env rr (world s) of (r, w) \<Rightarrow> (r, called (Call_List rr) w s))"

definition call_NewRepositoryStore ::
  "'w env \<Rightarrow> string \<Rightarrow> 'w state \<Rightarrow> (error + RepositoryStore) \<times> 'w state" where
  "call_NewRepositoryStore env root s =
     (case NewRepositoryStore env root (world s) of
        (r, w) \<Rightarrow> (r, called (Call_NewRepositoryStore root) w s))"

definition call_AllDataFiles ::
  "'w env \<Rightarrow> RepositoryStore \<Rightarrow> 'w state \<Rightarrow> (error + BuildDataFileInfo list) \<times> 'w state" where
  "call_AllDataFiles env st s =
     (case AllDataFiles env st (world s) of (r, w) \<Rightarrow> (r, called Call_AllDataFiles w s))"

text \<open>The three calls that open a stream: on success the stream joins \<open>opened\<close>.\<close>

definition open_result :: "stream \<Rightarrow> error option \<Rightarrow> 'w state \<Rightarrow> (error + stream) \<times> 'w state" where
  "open_result h r s =
     (case r of
        Some err \<Rightarrow> (Inl err, s)
      | None \<Rightarrow> (Inr h, s\<lparr>opened := h # opened s\<rparr>))"

definition call_Get :: "'w env \<Rightarrow> BuildDataFileSpec \<Rightarrow> 'w state \<Rightarrow> (error + stream) \<times> 'w state" where
  "call_Get env spec s =
     (case BuildData_Get env spec (world s) of
        (r, w) \<Rightarrow> open_result (RemoteFile spec) r (called (Call_Get spec) w s))"

definition call_Create ::
  "'w env \<Rightarrow> RepositoryStore \<Rightarrow> string \<Rightarrow> 'w state \<Rightarrow> (error + stream) \<times> 'w state" where
  "call_Create env st path s =
     (case Create env st path (world s) of
        (r, w) \<Rightarrow> open_result (CreatedFile path) r (called (Call_Create path) w s))"

definition call_Open ::
  "'w env \<Rightarrow> RepositoryStore \<Rightarrow> string \<Rightarrow> 'w state \<Rightarrow> (error + stream) \<times> 'w state" where
  "call_Open env st path s =
     (case Open env st path (world s) of
        (r, w) \<Rightarrow> open_result (OpenedFile path) r (called (Call_Open path) w s))"

definition call_Close :: "'w env \<Rightarrow> stream \<Rightarrow> 'w state \<Rightarrow> 'w state" where
  "call_Close env h s =
     (called (Call_Close h) (Close env h (world s)) s)\<lparr>opened := remove1 h (opened s)\<rparr>"

definition call_MkdirAll ::
  "'w env \<Rightarrow> RepositoryStore \<Rightarrow> string \<Rightarrow> 'w state \<Rightarrow> error option \<times> 'w state" where
  "call_MkdirAll env st d s =
     (case MkdirAll env st d (world s) of (r, w) \<Rightarrow> (r, called (Call_MkdirAll d) w s))"

definition call_Copy :: "'w env \<Rightarrow> stream \<Rightarrow> stream \<Rightarrow> 'w state \<Rightarrow> error option \<times> 'w state" where
  "call_Copy env dst src s =
     (case Copy env dst src (world s) of (r, w) \<Rightarrow> (r, called (Call_Copy dst src) w s))"

definition call_Stat ::
  "'w env \<Rightarrow> RepositoryStore \<Rightarrow> string \<Rightarrow> 'w state \<Rightarrow> (error + FileInfo) \<times> 'w state" where
  "call_Stat env st path s =
     (case Stat env st path (world s) of (r, w) \<Rightarrow> (r, called (Call_Stat path) w s))"

definition call_Upload ::
  "'w env \<Rightarrow> BuildDataFileSpec \<Rightarrow> stream \<Rightarrow> 'w state \<Rightarrow> error option \<times> 'w state" where
  "call_Upload env spec f s =
     (case BuildData_Upload env spec f (world s) of
        (r, w) \<Rightarrow> (r, called (Call_Upload spec f) w s))"

text \<open>\<^verbatim>\<open>defer h.Close()\<close>: the close runs when the rest of the function returns, on every
  return, and its own result is dropped.\<close>

definition deferred ::
  "('w state \<Rightarrow> 'w state) \<Rightarrow> ('w state \<Rightarrow> 'r \<times> 'w state) \<Rightarrow> 'w state \<Rightarrow> 'r \<times> 'w state" where
  "deferred close body s = (case body s of (r, s') \<Rightarrow> (r, close s'))"

section \<open>The per-file tasks\<close>

definition fileSpecOf :: "string \<Rightarrow> string \<Rightarrow> string \<Rightarrow> BuildDataFileSpec" where
  "fileSpecOf repoURI commit path =
     \<lparr>RepoRev = \<lparr>RepoSpec = \<lparr>URI = repoURI\<rparr>, Rev = commit, RevCommitID = commit\<rparr>,
      SpecPath = path\<rparr>"

definition fetchFile ::
  "'w env \<Rightarrow> GlobalOpt \<Rightarrow> RepositoryStore \<Rightarrow> string \<Rightarrow> BuildDataFileInfo \<Rightarrow>
     'w state \<Rightarrow> error option \<times> 'w state" where
  "fetchFile env g repoStore repoURI fi s0 =
     (let path = FilePath env repoStore (CommitID fi) (Path fi);
          fileSpec = fileSpecOf repoURI (CommitID fi) (Path fi);
          s1 = verbose g (Fetching path (Size fi)) s0
      in case call_Get env fileSpec s1 of
           (Inl err, s2) \<Rightarrow> (Some err, s2)
         | (Inr remoteFile, s2) \<Rightarrow>
             deferred (call_Close env remoteFile)
               (\<lambda>s2.
                  let s3 = verbose g (Fetched path (Size fi)) s2
                  in case call_MkdirAll env repoStore (Dir env path) s3 of
                       (Some err, s4) \<Rightarrow> (Some err, s4)
                     | (None, s4) \<Rightarrow>
                         (case call_Create env repoStore path s4 of
                            (Inl err, s5) \<Rightarrow> (Some err, s5)
                          | (Inr f, s5) \<Rightarrow>
                              deferred (call_Close env f)
                                (\<lambda>s5.
                                   case call_Copy env f remoteFile s5 of
                                     (Some err, s6) \<Rightarrow> (Some err, s6)
                                   | (None, s6) \<Rightarrow> (None, verbose g (Saved path) s6))
                                s5))
               s2)"

definition uploadFile ::
  "'w env \<Rightarrow> GlobalOpt \<Rightarrow> RepositoryStore \<Rightarrow> BuildDataFileInfo \<Rightarrow> string \<Rightarrow>
     'w state \<Rightarrow> error option \<times> 'w state" where
  "uploadFile env g repoStore file repoURI s0 =
     (let path = FilePath env repoStore (CommitID file) (Path file);
          fileSpec = fileSpecOf repoURI (CommitID file) (Path file);
          skip = (\<lambda>s. (None, verbose g (Skipping_nonexistent path) s));
          upload = (\<lambda>fi s1.
            let s2 = verbose g (Uploading path (FileSize fi)) s1
            in case call_Open env repoStore path s2 of
                 (Inl err, s3) \<Rightarrow> (Some err, s3)
               | (Inr f, s3) \<Rightarrow>
                   (case call_Upload env fileSpec f s3 of
                      (Some err, s4) \<Rightarrow> (Some err, s4)
                    | (None, s4) \<Rightarrow> (None, verbose g (Uploaded path (FileSize fi)) s4)))
      in case call_Stat env repoStore path s0 of
           (Inl err, s1) \<Rightarrow> skip s1
         | (Inr fi, s1) \<Rightarrow> if \<not> IsRegular fi then skip s1 else upload fi s1)"

section \<open>The parallel runner\<close>

text \<open>
  Modelled from the spec: package \<^verbatim>\<open>parallel\<close> (\<^verbatim>\<open>NewRun\<close>, \<^verbatim>\<open>Do\<close>, \<^verbatim>\<open>Wait\<close>) is not
  among the sources. The spec's executor runs every submitted task to completion, with
  no cancellation, and \<^verbatim>\<open>Wait\<close> returns the first error encountered, or nil. A task is
  run here as one step at the moment it completes, and the runner keeps the errors in
  the order it met them. The call that creates the runner is recorded with its bound.
\<close>

record Run =
  maxPar :: nat
  errs :: "error list"

definition NewRun :: "nat \<Rightarrow> Run" where
  "NewRun k = \<lparr>maxPar = k, errs = []\<rparr>"

definition Do :: "Run \<Rightarrow> ('s \<Rightarrow> error option \<times> 's) \<Rightarrow> 's \<Rightarrow> Run \<times> 's" where
  "Do par f s =
     (case f s of
        (None, s') \<Rightarrow> (par, s')
      | (Some err, s') \<Rightarrow> (par\<lparr>errs := errs par @ [err]\<rparr>, s'))"

definition Wait :: "Run \<Rightarrow> error option" where
  "Wait par = (case errs par of [] \<Rightarrow> None | err # _ \<Rightarrow> Some err)"

definition call_NewRun :: "nat \<Rightarrow> 'w state \<Rightarrow> Run \<times> 'w state" where
  "call_NewRun k s = (NewRun k, called (Call_NewRun k) (world s) s)"

text \<open>The loop \<^verbatim>\<open>for _, file_ := range files { file := file_; par.Do(func() error {...}) }\<close>.\<close>

fun range_Do :: "Run \<Rightarrow> ('a \<Rightarrow> 's \<Rightarrow> error option \<times> 's) \<Rightarrow> 'a list \<Rightarrow> 's \<Rightarrow> Run \<times> 's" where
  "range_Do par task [] s = (par, s)"
| "range_Do par task (file # files) s =
     (case Do par (task file) s of (par', s') \<Rightarrow> range_Do par' task files s')"

section \<open>The commands\<close>

definition is_NotFound :: "Response \<Rightarrow> bool" where
  "is_NotFound resp =
     (case resp of
        HTTPResponsePtr (Some hresp) \<Rightarrow> StatusCode hresp = StatusNotFound
      | _ \<Rightarrow> False)"

text \<open>The listing loop of \<^verbatim>\<open>pull --list\<close>; \<^verbatim>\<open>uint64(file.Size)\<close> is the size modulo
  \<open>2 ^ 64\<close>, and the URL line stands for the route built from \<^verbatim>\<open>bdspec\<close>.\<close>

fun print_remote :: "PullCmd \<Rightarrow> RepoRevSpec \<Rightarrow> BuildDataFileInfo list \<Rightarrow> 'w state \<Rightarrow> 'w state" where
  "print_remote c rr [] s = s"
| "print_remote c rr (file # files) s =
     (let s1 = fmt_Println (File_line (Size file mod 2 ^ 64) (ModTime file) (Path file)) s;
          s2 = (if URLs c
                then fmt_Println (URL_line \<lparr>RepoRev = rr, SpecPath = Path file\<rparr>) s1
                else s1)
      in print_remote c rr files s2)"

definition PullCmd_Execute :: "'w env \<Rightarrow> GlobalOpt \<Rightarrow> PullCmd \<Rightarrow> 'w state \<Rightarrow> outcome \<times> 'w state" where
  "PullCmd_Execute env g c s0 =
     (case call_OpenRepo env s0 of
        (Inl err, s1) \<Rightarrow> (Return (Some err), s1)
      | (Inr repo, s1) \<Rightarrow>
          (let s2 = verbose g (Listing_remote Method_URI (RepoCommitID repo)) s1;
               rr = \<lparr>RepoSpec = \<lparr>URI = RepoURI repo\<rparr>, Rev = RepoCommitID repo,
                     RevCommitID = RepoCommitID repo\<rparr>
           in case call_List env rr s2 of
                ((remoteFiles, resp, Some err), s3) \<Rightarrow>
                  if is_NotFound resp
                  then (Return None, log_Printf No_remote_build_files_found s3)
                  else (Fatal err, log_Printf (Fatal_line err) s3)
              | ((remoteFiles, resp, None), s3) \<Rightarrow>
                  if List c
                  then (Return None,
                        print_remote c rr remoteFiles
                          (log_Printf (Remote_build_files Method_URI (RepoCommitID repo)) s3))
                  else
                    (case call_NewRepositoryStore env (RootDir repo) s3 of
                       (Inl err, s4) \<Rightarrow> (Return (Some err), s4)
                     | (Inr repoStore, s4) \<Rightarrow>
                         (case call_NewRun 8 s4 of
                            (par, s5) \<Rightarrow>
                              (case range_Do par (fetchFile env g repoStore (RepoURI repo))
                                      (completion env remoteFiles) s5 of
                                 (par', s6) \<Rightarrow> (Return (Wait par'), s6))))))"

fun print_local :: "BuildDataFileInfo list \<Rightarrow> 'w state \<Rightarrow> 'w state" where
  "print_local [] s = s"
| "print_local (file # files) s = print_local files (fmt_Println (Path_line (Path file)) s)"

definition PushCmd_Execute :: "'w env \<Rightarrow> GlobalOpt \<Rightarrow> PushCmd \<Rightarrow> 'w state \<Rightarrow> outcome \<times> 'w state" where
  "PushCmd_Execute env g c s0 =
     (case call_OpenRepo env s0 of
        (Inl err, s1) \<Rightarrow> (Return (Some err), s1)
      | (Inr repo, s1) \<Rightarrow>
          (let s2 = verbose g (Listing_local Method_URI (RepoCommitID repo)) s1
           in case call_NewRepositoryStore env (RootDir repo) s2 of
                (Inl err, s3) \<Rightarrow> (Fatal err, log_Printf (Fatal_line err) s3)
              | (Inr repoStore, s3) \<Rightarrow>
                  (case call_AllDataFiles env repoStore s3 of
                     (Inl err, s4) \<Rightarrow> (Fatal err, log_Printf (Fatal_line err) s4)
                   | (Inr localFiles, s4) \<Rightarrow>
                       if PushList c
                       then (Return None,
                             print_local localFiles
                               (log_Printf (Local_build_files Method_URI (RepoCommitID repo)) s4))
                       else
                         (case call_NewRun 8 s4 of
                            (par, s5) \<Rightarrow>
                              (case range_Do par
                                      (\<lambda>file. uploadFile env g repoStore file (RepoURI repo))
                                      (completion env localFiles) s5 of
                                 (par', s6) \<Rightarrow> (Return (Wait par'), s6))))))"

section \<open>A local store and a remote catalog\<close>

text \<open>
  Modelled from the spec: the packages behind the collaborators (\<^verbatim>\<open>buildstore\<close>,
  \<^verbatim>\<open>rwvfs\<close>, the \<^verbatim>\<open>sourcegraph\<close> API client, \<^verbatim>\<open>OpenRepo\<close>) are not among the sources.
  The spec's FileStore is a local store addressed by (commit, relative path), whose
  concrete path is derived from the pair under a fixed root and whose listing derives
  the pair back from the directory structure; its RemoteCatalog lists the files known
  for one revision, or signals not-found, and fetches or stores the bytes of one named
  file. Here the local store maps a concrete path to the bytes of a regular file and
  keeps the directories made so far, the concrete path is \<^verbatim>\<open>commit/path\<close>, and the
  remote catalog maps a file spec to its bytes. Any call listed in \<open>faults\<close> fails with
  the error given there.
\<close>

record cworld =
  repository :: Repository
  faults :: "(call \<times> error) list"
  local_files :: "(string \<times> string) list"
  local_dirs :: "string list"
  remote_files :: "(BuildDataFileSpec \<times> string) list"

definition fault :: "cworld \<Rightarrow> call \<Rightarrow> error option" where
  "fault w c = map_of (faults w) c"

definition c_OpenRepo :: "cworld \<Rightarrow> (error + Repository) \<times> cworld" where
  "c_OpenRepo w =
     (case fault w Call_OpenRepo of
        Some err \<Rightarrow> (Inl err, w)
      | None \<Rightarrow> (Inr (repository w), w))"

definition c_NewRepositoryStore :: "string \<Rightarrow> cworld \<Rightarrow> (error + RepositoryStore) \<times> cworld" where
  "c_NewRepositoryStore root w =
     (case fault w (Call_NewRepositoryStore root) of
        Some err \<Rightarrow> (Inl err, w)
      | None \<Rightarrow> (Inr (RepositoryStore root), w))"

definition c_FilePath :: "RepositoryStore \<Rightarrow> string \<Rightarrow> string \<Rightarrow> string" where
  "c_FilePath st commit path = commit @ ''/'' @ path"

definition not_slash :: "char \<Rightarrow> bool" where
  "not_slash ch = (ch \<noteq> CHR ''/'')"

text \<open>\<^verbatim>\<open>filepath.Clean\<close> and \<^verbatim>\<open>filepath.Dir\<close> of the Go library, for slash-separated
  paths. \<^verbatim>\<open>Clean\<close> drops empty and \<^verbatim>\<open>.\<close> elements, lets a \<^verbatim>\<open>..\<close> element cancel the element
  before it (or vanish at the root), keeps a leading separator, and turns the empty
  result into \<^verbatim>\<open>.\<close>; \<^verbatim>\<open>Dir\<close> cleans the path up to and including its last separator.\<close>

definition split_path :: "string \<Rightarrow> string list" where
  "split_path s =
     foldr (\<lambda>ch acc.
              case acc of
                [] \<Rightarrow> [[ch]]
              | cur # rest \<Rightarrow> if ch = CHR ''/'' then [] # cur # rest else (ch # cur) # rest)
       s [[]]"

fun join_path :: "string list \<Rightarrow> string" where
  "join_path [] = []"
| "join_path [c] = c"
| "join_path (c # d # cs) = c @ CHR ''/'' # join_path (d # cs)"

definition clean_push :: "bool \<Rightarrow> string list \<Rightarrow> string \<Rightarrow> string list" where
  "clean_push rooted stack c =
     (if c = ''..''
      then (case stack of
              [] \<Rightarrow> if rooted then [] else [''..'']
            | t # ts \<Rightarrow> if t = ''..'' then ''..'' # stack else ts)
      else c # stack)"

definition Clean :: "string \<Rightarrow> string" where
  "Clean s =
     (let rooted = (case s of [] \<Rightarrow> False | ch # _ \<Rightarrow> ch = CHR ''/'');
          elems = filter (\<lambda>c. c \<noteq> [] \<and> c \<noteq> ''.'') (split_path s);
          body = join_path (rev (foldl (clean_push rooted) [] elems))
      in if rooted then CHR ''/'' # body else if body = [] then ''.'' else body)"

definition c_Dir :: "string \<Rightarrow> string" where
  "c_Dir p = Clean (rev (dropWhile not_slash (rev p)))"

text \<open>The record of a stored file: the commit is the first element of its path, the
  relative path is the rest.\<close>

definition local_record :: "string \<times> string \<Rightarrow> BuildDataFileInfo" where
  "local_record e =
     \<lparr>CommitID = takeWhile not_slash (fst e), Path = tl (dropWhile not_slash (fst e)),
      Size = int (length (snd e)), ModTime = []\<rparr>"

definition c_AllDataFiles :: "RepositoryStore \<Rightarrow> cworld \<Rightarrow> (error + BuildDataFileInfo list) \<times> cworld" where
  "c_AllDataFiles st w =
     (case fault w Call_AllDataFiles of
        Some err \<Rightarrow> (Inl err, w)
      | None \<Rightarrow>
          (Inr (map local_record (filter (\<lambda>e. CHR ''/'' \<in> set (fst e)) (local_files w))), w))"

definition remote_record :: "BuildDataFileSpec \<times> string \<Rightarrow> BuildDataFileInfo" where
  "remote_record e =
     \<lparr>CommitID = RevCommitID (RepoRev (fst e)), Path = SpecPath (fst e),
      Size = int (length (snd e)), ModTime = []\<rparr>"

definition c_List ::
  "RepoRevSpec \<Rightarrow> cworld \<Rightarrow> (BuildDataFileInfo list \<times> Response \<times> error option) \<times> cworld" where
  "c_List rr w =
     (case fault w (Call_List rr) of
        Some err \<Rightarrow> (([], HTTPResponsePtr (Some \<lparr>StatusCode = 500\<rparr>), Some err), w)
      | None \<Rightarrow>
          (let files = map remote_record (filter (\<lambda>e. RepoRev (fst e) = rr) (remote_files w))
           in if files = []
              then (([], HTTPResponsePtr (Some \<lparr>StatusCode = 404\<rparr>), Some (Error ''404 Not Found'')), w)
              else ((files, HTTPResponsePtr (Some \<lparr>StatusCode = 200\<rparr>), None), w)))"

definition c_Get :: "BuildDataFileSpec \<Rightarrow> cworld \<Rightarrow> error option \<times> cworld" where
  "c_Get spec w =
     (case fault w (Call_Get spec) of
        Some err \<Rightarrow> (Some err, w)
      | None \<Rightarrow>
          (case map_of (remote_files w) spec of
             None \<Rightarrow> (Some (Error ''404 Not Found''), w)
           | Some b \<Rightarrow> (None, w)))"

definition c_MkdirAll :: "RepositoryStore \<Rightarrow> string \<Rightarrow> cworld \<Rightarrow> error option \<times> cworld" where
  "c_MkdirAll st d w =
     (case fault w (Call_MkdirAll d) of
        Some err \<Rightarrow> (Some err, w)
      | None \<Rightarrow>
          if d \<in> fst ` set (local_files w) then (Some (Error ''not a directory''), w)
          else (None, w\<lparr>local_dirs := List.insert d (local_dirs w)\<rparr>))"

definition c_Create :: "RepositoryStore \<Rightarrow> string \<Rightarrow> cworld \<Rightarrow> error option \<times> cworld" where
  "c_Create st p w =
     (case fault w (Call_Create p) of
        Some err \<Rightarrow> (Some err, w)
      | None \<Rightarrow>
          if p \<in> set (local_dirs w) then (Some (Error ''is a directory''), w)
          else if c_Dir p \<notin> set (local_dirs w) then (Some (Error ''no such file or directory''), w)
          else (None, w\<lparr>local_files := AList.update p [] (local_files w)\<rparr>))"

definition c_Copy :: "stream \<Rightarrow> stream \<Rightarrow> cworld \<Rightarrow> error option \<times> cworld" where
  "c_Copy dst src w =
     (case fault w (Call_Copy dst src) of
        Some err \<Rightarrow> (Some err, w)
      | None \<Rightarrow>
          (case (dst, src) of
             (CreatedFile p, RemoteFile spec) \<Rightarrow>
               (case map_of (remote_files w) spec of
                  None \<Rightarrow> (Some (Error ''unexpected EOF''), w)
                | Some b \<Rightarrow> (None, w\<lparr>local_files := AList.update p b (local_files w)\<rparr>))
           | _ \<Rightarrow> (Some (Error ''invalid argument''), w)))"

definition c_Close :: "stream \<Rightarrow> cworld \<Rightarrow> cworld" where
  "c_Close h w = w"

definition c_Stat :: "RepositoryStore \<Rightarrow> string \<Rightarrow> cworld \<Rightarrow> (error + FileInfo) \<times> cworld" where
  "c_Stat st p w =
     (case fault w (Call_Stat p) of
        Some err \<Rightarrow> (Inl err, w)
      | None \<Rightarrow>
          (case map_of (local_files w) p of
             Some b \<Rightarrow> (Inr \<lparr>IsRegular = True, FileSize = int (length b)\<rparr>, w)
           | None \<Rightarrow>
               if p \<in> set (local_dirs w) then (Inr \<lparr>IsRegular = False, FileSize = 0\<rparr>, w)
               else (Inl (Error ''no such file or directory''), w)))"

definition c_Open :: "RepositoryStore \<Rightarrow> string \<Rightarrow> cworld \<Rightarrow> error option \<times> cworld" where
  "c_Open st p w =
     (case fault w (Call_Open p) of
        Some err \<Rightarrow> (Some err, w)
      | None \<Rightarrow>
          (case map_of (local_files w) p of
             None \<Rightarrow> (Some (Error ''no such file or directory''), w)
           | Some b \<Rightarrow> (None, w)))"

definition c_Upload :: "BuildDataFileSpec \<Rightarrow> stream \<Rightarrow> cworld \<Rightarrow> error option \<times> cworld" where
  "c_Upload spec f w =
     (case fault w (Call_Upload spec f) of
        Some err \<Rightarrow> (Some err, w)
      | None \<Rightarrow>
          (case f of
             OpenedFile p \<Rightarrow>
               (case map_of (local_files w) p of
                  None \<Rightarrow> (Some (Error ''invalid argument''), w)
                | Some b \<Rightarrow> (None, w\<lparr>remote_files := AList.update spec b (remote_files w)\<rparr>))
           | _ \<Rightarrow> (Some (Error ''invalid argument''), w)))"

definition c_env :: "(BuildDataFileInfo list \<Rightarrow> BuildDataFileInfo list) \<Rightarrow> cworld env" where
  "c_env order =
     \<lparr>OpenRepo = c_OpenRepo, BuildData_List = c_List, NewRepositoryStore = c_NewRepositoryStore,
      FilePath = c_FilePath, AllDataFiles = c_AllDataFiles, BuildData_Get = c_Get,
      Dir = c_Dir, MkdirAll = c_MkdirAll, Create = c_Create, Copy = c_Copy, Close = c_Close,
      Stat = c_Stat, Open = c_Open, BuildData_Upload = c_Upload, completion = order\<rparr>"

section \<open>The phases of a command\<close>

text \<open>
  The steps of \<^verbatim>\<open>Execute\<close> before the batch, collected so that a property of the batch
  can name the values they produce: either the command has ended with an outcome, or it
  holds the repository, the listing and (for a transfer) the store.
\<close>

definition rev_spec :: "Repository \<Rightarrow> RepoRevSpec" where
  "rev_spec repo =
     \<lparr>RepoSpec = \<lparr>URI = RepoURI repo\<rparr>, Rev = RepoCommitID repo,
      RevCommitID = RepoCommitID repo\<rparr>"

definition Pull_listing ::
  "'w env \<Rightarrow> GlobalOpt \<Rightarrow> 'w state \<Rightarrow>
     (outcome + Repository \<times> BuildDataFileInfo list) \<times> 'w state" where
  "Pull_listing env g s0 =
     (case call_OpenRepo env s0 of
        (Inl err, s1) \<Rightarrow> (Inl (Return (Some err)), s1)
      | (Inr repo, s1) \<Rightarrow>
          (case call_List env (rev_spec repo)
                  (verbose g (Listing_remote Method_URI (RepoCommitID repo)) s1) of
             ((remoteFiles, resp, Some err), s3) \<Rightarrow>
               if is_NotFound resp
               then (Inl (Return None), log_Printf No_remote_build_files_found s3)
               else (Inl (Fatal err), log_Printf (Fatal_line err) s3)
           | ((remoteFiles, resp, None), s3) \<Rightarrow> (Inr (repo, remoteFiles), s3)))"

definition Pull_setup ::
  "'w env \<Rightarrow> GlobalOpt \<Rightarrow> 'w state \<Rightarrow>
     (outcome + Repository \<times> RepositoryStore \<times> BuildDataFileInfo list) \<times> 'w state" where
  "Pull_setup env g s0 =
     (case Pull_listing env g s0 of
        (Inl out, s) \<Rightarrow> (Inl out, s)
      | (Inr (repo, remoteFiles), s3) \<Rightarrow>
          (case call_NewRepositoryStore env (RootDir repo) s3 of
             (Inl err, s4) \<Rightarrow> (Inl (Return (Some err)), s4)
           | (Inr repoStore, s4) \<Rightarrow> (Inr (repo, repoStore, remoteFiles), s4)))"

definition Push_setup ::
  "'w env \<Rightarrow> GlobalOpt \<Rightarrow> 'w state \<Rightarrow>
     (outcome + Repository \<times> RepositoryStore \<times> BuildDataFileInfo list) \<times> 'w state" where
  "Push_setup env g s0 =
     (case call_OpenRepo env s0 of
        (Inl err, s1) \<Rightarrow> (Inl (Return (Some err)), s1)
      | (Inr repo, s1) \<Rightarrow>
          (case call_NewRepositoryStore env (RootDir repo)
                  (verbose g (Listing_local Method_URI (RepoCommitID repo)) s1) of
             (Inl err, s3) \<Rightarrow> (Inl (Fatal err), log_Printf (Fatal_line err) s3)
           | (Inr repoStore, s3) \<Rightarrow>
               (case call_AllDataFiles env repoStore s3 of
                  (Inl err, s4) \<Rightarrow> (Inl (Fatal err), log_Printf (Fatal_line err) s4)
                | (Inr localFiles, s4) \<Rightarrow> (Inr (repo, repoStore, localFiles), s4))))"

text \<open>The batch as a list: each task in the order of completion, with the state it ran
  in and the error it returned.\<close>

fun runs :: "('a \<Rightarrow> 's \<Rightarrow> error option \<times> 's) \<Rightarrow> 'a list \<Rightarrow> 's \<Rightarrow> ('a \<times> 's \<times> error option) list" where
  "runs task [] s = []"
| "runs task (file # files) s =
     (case task file s of (r, s') \<Rightarrow> (file, s, r) # runs task files s')"

fun first_error :: "error option list \<Rightarrow> error option" where
  "first_error [] = None"
| "first_error (None # rs) = first_error rs"
| "first_error (Some err # rs) = Some err"

definition results :: "('a \<times> 's \<times> error option) list \<Rightarrow> error option list" where
  "results rs = map (\<lambda>r. snd (snd r)) rs"

definition pull_batch ::
  "'w env \<Rightarrow> GlobalOpt \<Rightarrow> 'w state \<Rightarrow> (BuildDataFileInfo \<times> 'w state \<times> error option) list" where
  "pull_batch env g s0 =
     (case Pull_setup env g s0 of
        (Inl out, s) \<Rightarrow> []
      | (Inr (repo, repoStore, remoteFiles), s4) \<Rightarrow>
          runs (fetchFile env g repoStore (RepoURI repo)) (completion env remoteFiles)
            (snd (call_NewRun 8 s4)))"

definition push_batch ::
  "'w env \<Rightarrow> GlobalOpt \<Rightarrow> 'w state \<Rightarrow> (BuildDataFileInfo \<times> 'w state \<times> error option) list" where
  "push_batch env g s0 =
     (case Push_setup env g s0 of
        (Inl out, s) \<Rightarrow> []
      | (Inr (repo, repoStore, localFiles), s4) \<Rightarrow>
          runs (\<lambda>file. uploadFile env g repoStore file (RepoURI repo)) (completion env localFiles)
            (snd (call_NewRun 8 s4)))"

text \<open>The calls that write to a store, and the calls that only a transfer task makes.\<close>

fun is_write :: "call \<Rightarrow> bool" where
  "is_write (Call_MkdirAll d) = True"
| "is_write (Call_Create p) = True"
| "is_write (Call_Copy dst src) = True"
| "is_write (Call_Upload spec f) = True"
| "is_write c = False"

fun is_transfer :: "call \<Rightarrow> bool" where
  "is_transfer Call_OpenRepo = False"
| "is_transfer (Call_List rr) = False"
| "is_transfer (Call_NewRepositoryStore root) = False"
| "is_transfer Call_AllDataFiles = False"
| "is_transfer (Call_NewRun k) = False"
| "is_transfer c = True"

text \<open>The calls a download, and an upload, of one record may make: each names the
  concrete path and the file spec built from the commit of the record.\<close>

definition fetch_calls :: "'w env \<Rightarrow> RepositoryStore \<Rightarrow> string \<Rightarrow> BuildDataFileInfo \<Rightarrow> call set" where
  "fetch_calls env repoStore repoURI fi =
     (let path = FilePath env repoStore (CommitID fi) (Path fi);
          spec = \<lparr>RepoRev = \<lparr>RepoSpec = \<lparr>URI = repoURI\<rparr>, Rev = CommitID fi,
                              RevCommitID = CommitID fi\<rparr>,
                  SpecPath = Path fi\<rparr>
      in {Call_Get spec, Call_MkdirAll (Dir env path), Call_Create path,
          Call_Copy (CreatedFile path) (RemoteFile spec),
          Call_Close (CreatedFile path), Call_Close (RemoteFile spec)})"

definition upload_calls :: "'w env \<Rightarrow> RepositoryStore \<Rightarrow> string \<Rightarrow> BuildDataFileInfo \<Rightarrow> call set" where
  "upload_calls env repoStore repoURI fi =
     (let path = FilePath env repoStore (CommitID fi) (Path fi);
          spec = \<lparr>RepoRev = \<lparr>RepoSpec = \<lparr>URI = repoURI\<rparr>, Rev = CommitID fi,
                              RevCommitID = CommitID fi\<rparr>,
                  SpecPath = Path fi\<rparr>
      in {Call_Stat path, Call_Open path, Call_Upload spec (OpenedFile path)})"

section \<open>Admission to the parallel runner\<close>






section \<open>Example worlds\<close>

definition repo1 :: Repository where
  "repo1 = \<lparr>RootDir = ''/src/app'', RepoURI = ''github.com/a/b'', RepoCommitID = ''c1''\<rparr>"

definition store1 :: RepositoryStore where
  "store1 = RepositoryStore ''/src/app''"

definition quiet :: GlobalOpt where
  "quiet = \<lparr>Verbose = False\<rparr>"

definition file_A :: BuildDataFileInfo where
  "file_A = \<lparr>CommitID = ''c1'', Path = ''A'', Size = 10, ModTime = []\<rparr>"

definition file_B :: BuildDataFileInfo where
  "file_B = \<lparr>CommitID = ''c1'', Path = ''B'', Size = 0, ModTime = []\<rparr>"

definition file_sub :: BuildDataFileInfo where
  "file_sub = \<lparr>CommitID = ''c1'', Path = ''sub'', Size = 0, ModTime = []\<rparr>"

text \<open>A local store with a ten-byte file, an empty file and a directory; an empty remote.\<close>

definition world_local :: cworld where
  "world_local =
     \<lparr>repository = repo1, faults = [],
      local_files = [(''c1/A'', ''0123456789''), (''c1/B'', [])],
      local_dirs = [''c1'', ''c1/sub''], remote_files = []\<rparr>"

text \<open>The same store, where \<^verbatim>\<open>c1/B\<close> has vanished since the listing.\<close>

definition world_vanished :: cworld where
  "world_vanished =
     world_local\<lparr>faults := [(Call_Stat ''c1/B'', Error ''no such file or directory'')]\<rparr>"

text \<open>The same store, where \<^verbatim>\<open>c1/A\<close> cannot be examined.\<close>

definition world_denied :: cworld where
  "world_denied = world_local\<lparr>faults := [(Call_Stat ''c1/A'', Error ''permission denied'')]\<rparr>"

text \<open>A remote that holds the two files for commit \<^verbatim>\<open>c1\<close>; an empty local store.\<close>

definition world_remote :: cworld where
  "world_remote =
     \<lparr>repository = repo1, faults = [], local_files = [], local_dirs = [],
      remote_files = [(fileSpecOf ''github.com/a/b'' ''c1'' ''A'', ''0123456789''),
                      (fileSpecOf ''github.com/a/b'' ''c1'' ''B'', [])]\<rparr>"

text \<open>Worlds where the setup fails: no repository; no store.\<close>

definition world_no_repo :: cworld where
  "world_no_repo = world_remote\<lparr>faults := [(Call_OpenRepo, Error ''not a repository'')]\<rparr>"

definition world_no_store :: cworld where
  "world_no_store =
     world_remote\<lparr>faults := [(Call_NewRepositoryStore ''/src/app'', Error ''permission denied'')]\<rparr>"

text \<open>A world where the first file cannot be created locally.\<close>

definition world_disk_full :: cworld where
  "world_disk_full = world_remote\<lparr>faults := [(Call_Create ''c1/A'', Error ''disk full'')]\<rparr>"

text \<open>A world where the first file cannot be created and the second cannot be fetched.\<close>

definition world_two_faults :: cworld where
  "world_two_faults =
     world_remote\<lparr>faults := [(Call_Create ''c1/A'', Error ''disk full''),
                             (Call_Get (fileSpecOf ''github.com/a/b'' ''c1'' ''B''), Error ''timeout'')]\<rparr>"

text \<open>A record of another commit than the one the repository is at, held by both stores.\<close>

definition file_other :: BuildDataFileInfo where
  "file_other = \<lparr>CommitID = ''c2'', Path = ''A'', Size = 2, ModTime = []\<rparr>"

definition world_other_commit :: cworld where
  "world_other_commit =
     \<lparr>repository = repo1, faults = [], local_files = [(''c2/A'', ''zz'')], local_dirs = [''c2''],
      remote_files = [(fileSpecOf ''github.com/a/b'' ''c2'' ''A'', ''yy'')]\<rparr>"

text \<open>A local store that holds files of two commits, the repository being at \<^verbatim>\<open>c1\<close>; an
  empty remote.\<close>

definition world_two_commits :: cworld where
  "world_two_commits =
     \<lparr>repository = repo1, faults = [],
      local_files = [(''c1/A'', ''0123456789''), (''c1/B'', []), (''c2/A'', ''zz'')],
      local_dirs = [''c1'', ''c2''], remote_files = []\<rparr>"

text \<open>The collaborators with a remote listing that answers with the given records.\<close>

definition listing_env :: "BuildDataFileInfo list \<Rightarrow> cworld env" where
  "listing_env files =
     (c_env id)\<lparr>BuildData_List :=
        \<lambda>rr w. ((files, HTTPResponsePtr (Some \<lparr>StatusCode = 200\<rparr>), None), w)\<rparr>"

section \<open>Push, then pull into a fresh store\<close>

definition fresh_local :: "cworld \<Rightarrow> cworld" where
  "fresh_local w = w\<lparr>local_files := [], local_dirs := []\<rparr>"

text \<open>A push that transfers, then a pull that transfers into the emptied local store, with
  the tasks of the two batches completing in the orders \<open>order1\<close> and \<open>order2\<close>: the two
  outcomes and the world at the end.\<close>

definition push_then_pull ::
  "(BuildDataFileInfo list \<Rightarrow> BuildDataFileInfo list) \<Rightarrow>
   (BuildDataFileInfo list \<Rightarrow> BuildDataFileInfo list) \<Rightarrow>
   GlobalOpt \<Rightarrow> cworld \<Rightarrow> outcome \<times> outcome \<times> cworld" where
  "push_then_pull order1 order2 g w0 =
     (case PushCmd_Execute (c_env order1) g \<lparr>PushList = False\<rparr> (start w0) of
        (r1, s1) \<Rightarrow>
          (case PullCmd_Execute (c_env order2) g \<lparr>List = False, URLs = False\<rparr>
                  (start (fresh_local (world s1))) of
             (r2, s2) \<Rightarrow> (r1, r2, world s2)))"

section \<open>Basic facts\<close>

lemma called_simps [simp]:
  "world (called c w s) = w"
  "calls (called c w s) = calls s @ [c]"
  "opened (called c w s) = opened s"
  "logs (called c w s) = logs s"
  "stdout (called c w s) = stdout s"
  by (simp_all add: called_def)

lemma log_Printf_simps [simp]:
  "world (log_Printf m s) = world s"
  "calls (log_Printf m s) = calls s"
  "opened (log_Printf m s) = opened s"
  "logs (log_Printf m s) = logs s @ [m]"
  "stdout (log_Printf m s) = stdout s"
  by (simp_all add: log_Printf_def)

lemma fmt_Println_simps [simp]:
  "world (fmt_Println l s) = world s"
  "calls (fmt_Println l s) = calls s"
  "opened (fmt_Println l s) = opened s"
  "logs (fmt_Println l s) = logs s"
  "stdout (fmt_Println l s) = stdout s @ [l]"
  by (simp_all add: fmt_Println_def)

lemma verbose_simps [simp]:
  "world (verbose g m s) = world s"
  "calls (verbose g m s) = calls s"
  "opened (verbose g m s) = opened s"
  "stdout (verbose g m s) = stdout s"
  by (simp_all add: verbose_def)

lemma start_simps [simp]:
  "world (start w) = w"
  "calls (start w) = []"
  "opened (start w) = []"
  "logs (start w) = []"
  "stdout (start w) = []"
  by (simp_all add: start_def)

lemma print_remote_frame [simp]:
  "world (print_remote c rr files s) = world s"
  "calls (print_remote c rr files s) = calls s"
  "opened (print_remote c rr files s) = opened s"
  "logs (print_remote c rr files s) = logs s"
  by (induction files arbitrary: s; simp add: Let_def)+

lemma print_local_frame [simp]:
  "world (print_local files s) = world s"
  "calls (print_local files s) = calls s"
  "opened (print_local files s) = opened s"
  "logs (print_local files s) = logs s"
  by (induction files arbitrary: s; simp)+

text \<open>The runner keeps the errors of the tasks in the order of completion.\<close>

lemma range_Do_errs:
  "errs (fst (range_Do par task files s)) =
     errs par @ List.map_filter id (results (runs task files s))"
proof (induction files arbitrary: par s)
  case Nil
  then show ?case by (simp add: results_def List.map_filter_simps)
next
  case (Cons f fs)
  obtain r s' where step: "task f s = (r, s')" by (cases "task f s")
  show ?case
  proof (cases r)
    case None
    with step show ?thesis
      using Cons.IH [of par s'] by (simp add: Do_def results_def List.map_filter_simps)
  next
    case (Some err)
    with step show ?thesis
      using Cons.IH [of "par\<lparr>errs := errs par @ [err]\<rparr>" s']
      by (simp add: Do_def results_def List.map_filter_simps)
  qed
qed

lemma first_error_map_filter:
  "(case List.map_filter id rs of [] \<Rightarrow> None | err # _ \<Rightarrow> Some err) = first_error rs"
  by (induction rs rule: first_error.induct) (simp_all add: List.map_filter_simps)

lemma Wait_range_Do:
  "Wait (fst (range_Do (NewRun k) task files s)) = first_error (results (runs task files s))"
  by (simp add: Wait_def range_Do_errs NewRun_def first_error_map_filter)

lemma Wait_range_Do_eq:
  "range_Do (NewRun k) task files s = (par, s') \<Longrightarrow>
   Wait par = first_error (results (runs task files s))"
  using Wait_range_Do [of k task files s] by simp

lemma first_error_None: "first_error rs = None \<longleftrightarrow> (\<forall>r \<in> set rs. r = None)"
  by (induction rs rule: first_error.induct) auto

lemma first_error_Some: "first_error rs = Some err \<Longrightarrow> Some err \<in> set rs"
  by (induction rs rule: first_error.induct) auto

lemma runs_files [simp]: "map fst (runs task files s) = files"
  by (induction files arbitrary: s) (auto split: prod.splits)

lemma range_Do_state:
  "snd (range_Do par task files s) =
     (case runs task files s of [] \<Rightarrow> s | rs \<Rightarrow> snd (task (fst (last rs)) (fst (snd (last rs)))))"
proof (induction files arbitrary: par s)
  case Nil
  then show ?case by simp
next
  case (Cons f fs)
  obtain r s' where step: "task f s = (r, s')" by (cases "task f s")
  obtain par' where par': "Do par (task f) s = (par', s')"
    using step by (cases r) (simp_all add: Do_def)
  show ?case
  proof (cases fs)
    case Nil
    with step par' show ?thesis by simp
  next
    case (Cons f' fs')
    then have ne: "runs task fs s' \<noteq> []" by (simp split: prod.splits)
    with step par' Cons.IH [of par' s'] show ?thesis
      by (auto split: list.splits)
  qed
qed

text \<open>The commands, phase by phase.\<close>

lemma Pull_list_mode:
  "List c \<Longrightarrow>
   PullCmd_Execute env g c s0 =
     (case Pull_listing env g s0 of
        (Inl out, s) \<Rightarrow> (out, s)
      | (Inr (repo, remoteFiles), s3) \<Rightarrow>
          (Return None,
           print_remote c (rev_spec repo) remoteFiles
             (log_Printf (Remote_build_files Method_URI (RepoCommitID repo)) s3)))"
  by (auto simp: PullCmd_Execute_def Pull_listing_def rev_spec_def Let_def
      split: prod.splits sum.splits option.splits)

lemma Pull_transfer_mode:
  "\<not> List c \<Longrightarrow>
   PullCmd_Execute env g c s0 =
     (case Pull_setup env g s0 of
        (Inl out, s) \<Rightarrow> (out, s)
      | (Inr (repo, repoStore, remoteFiles), s4) \<Rightarrow>
          (Return (first_error (results
             (runs (fetchFile env g repoStore (RepoURI repo)) (completion env remoteFiles)
                (snd (call_NewRun 8 s4))))),
           snd (range_Do (NewRun 8) (fetchFile env g repoStore (RepoURI repo))
                  (completion env remoteFiles) (snd (call_NewRun 8 s4)))))"
  by (auto simp: PullCmd_Execute_def Pull_setup_def Pull_listing_def rev_spec_def Let_def
      call_NewRun_def split: prod.splits sum.splits option.splits intro: Wait_range_Do_eq)

lemma Push_list_mode:
  "PushList c \<Longrightarrow>
   PushCmd_Execute env g c s0 =
     (case Push_setup env g s0 of
        (Inl out, s) \<Rightarrow> (out, s)
      | (Inr (repo, repoStore, localFiles), s4) \<Rightarrow>
          (Return None,
           print_local localFiles
             (log_Printf (Local_build_files Method_URI (RepoCommitID repo)) s4)))"
  by (auto simp: PushCmd_Execute_def Push_setup_def Let_def
      split: prod.splits sum.splits option.splits)

lemma Push_transfer_mode:
  "\<not> PushList c \<Longrightarrow>
   PushCmd_Execute env g c s0 =
     (case Push_setup env g s0 of
        (Inl out, s) \<Rightarrow> (out, s)
      | (Inr (repo, repoStore, localFiles), s4) \<Rightarrow>
          (Return (first_error (results
             (runs (\<lambda>file. uploadFile env g repoStore file (RepoURI repo))
                (completion env localFiles) (snd (call_NewRun 8 s4))))),
           snd (range_Do (NewRun 8) (\<lambda>file. uploadFile env g repoStore file (RepoURI repo))
                  (completion env localFiles) (snd (call_NewRun 8 s4)))))"
  by (auto simp: PushCmd_Execute_def Push_setup_def Let_def call_NewRun_def
      split: prod.splits sum.splits option.splits intro: Wait_range_Do_eq)

lemma runs_result: "(f, s, r) \<in> set (runs task files s0) \<Longrightarrow> r = fst (task f s)"
proof (induction files arbitrary: s0)
  case Nil
  then show ?case by simp
next
  case (Cons f' fs)
  obtain r' s' where st: "task f' s0 = (r', s')" by (cases "task f' s0")
  from Cons.prems st have "(f, s, r) = (f', s0, r') \<or> (f, s, r) \<in> set (runs task fs s')"
    by simp
  then show ?case
  proof
    assume "(f, s, r) = (f', s0, r')"
    with st show ?thesis by simp
  next
    assume "(f, s, r) \<in> set (runs task fs s')"
    then show ?thesis by (rule Cons.IH)
  qed
qed

lemma stdout_print_remote:
  "stdout (print_remote c rr files s) =
     stdout s @ concat (map (\<lambda>file. File_line (Size file mod 2 ^ 64) (ModTime file) (Path file) #
        (if URLs c then [URL_line \<lparr>RepoRev = rr, SpecPath = Path file\<rparr>] else [])) files)"
  by (induction files arbitrary: s) (simp_all add: Let_def)

lemma stdout_print_local:
  "stdout (print_local files s) = stdout s @ map (\<lambda>file. Path_line (Path file)) files"
  by (induction files arbitrary: s) simp_all

lemma Pull_listing_calls:
  "\<forall>x \<in> set (calls (snd (Pull_listing env g (start w)))). \<not> is_write x \<and> \<not> is_transfer x"
  by (auto simp: Pull_listing_def call_OpenRepo_def call_List_def
      split: prod.splits sum.splits option.splits)

lemma Push_setup_calls:
  "\<forall>x \<in> set (calls (snd (Push_setup env g (start w)))). \<not> is_write x \<and> \<not> is_transfer x"
  by (auto simp: Push_setup_def call_OpenRepo_def call_NewRepositoryStore_def call_AllDataFiles_def
      split: prod.splits sum.splits option.splits)

lemma Pull_setup_calls:
  "\<forall>x \<in> set (calls (snd (Pull_setup env g (start w)))). \<not> is_write x \<and> \<not> is_transfer x"
  by (auto simp: Pull_setup_def Pull_listing_def call_OpenRepo_def call_List_def
      call_NewRepositoryStore_def split: prod.splits sum.splits option.splits)

lemma Pull_listing_frame:
  "opened (snd (Pull_listing env g (start w))) = []"
  "stdout (snd (Pull_listing env g (start w))) = []"
  by (auto simp: Pull_listing_def call_OpenRepo_def call_List_def
      split: prod.splits sum.splits option.splits)

lemma Push_setup_frame:
  "opened (snd (Push_setup env g (start w))) = []"
  "stdout (snd (Push_setup env g (start w))) = []"
  by (auto simp: Push_setup_def call_OpenRepo_def call_NewRepositoryStore_def call_AllDataFiles_def
      split: prod.splits sum.splits option.splits)

text \<open>Unfolding the embedding, the example store and the example worlds, for evaluation
  at concrete inputs.\<close>

lemmas m_defs = uploadFile_def fetchFile_def call_Stat_def call_Open_def call_Upload_def
  call_Get_def call_Create_def call_Copy_def call_Close_def call_MkdirAll_def call_OpenRepo_def
  call_List_def call_NewRepositoryStore_def call_AllDataFiles_def call_NewRun_def open_result_def
  deferred_def fileSpecOf_def verbose_def Do_def NewRun_def Wait_def Push_setup_def Pull_setup_def
  Pull_listing_def push_batch_def pull_batch_def rev_spec_def is_NotFound_def StatusNotFound_def
  Let_def

lemmas c_defs = c_env_def c_OpenRepo_def c_List_def c_NewRepositoryStore_def c_FilePath_def
  c_AllDataFiles_def c_Get_def c_Dir_def Clean_def split_path_def clean_push_def c_MkdirAll_def c_Create_def c_Copy_def c_Close_def
  c_Stat_def c_Open_def c_Upload_def fault_def not_slash_def local_record_def remote_record_def

lemmas w_defs = repo1_def store1_def quiet_def file_A_def file_B_def file_sub_def
  world_local_def world_vanished_def world_denied_def world_remote_def world_no_repo_def
  world_no_store_def world_disk_full_def world_two_faults_def file_other_def
  world_other_commit_def listing_env_def world_two_commits_def

section \<open>Push: files that cannot be uploaded as regular files\<close>

text \<open>
  C9. An upload task returns no error, and so adds nothing to the errors of the batch,
  whenever \<^verbatim>\<open>Stat\<close> on the concrete path returns any error at all (a missing file, a
  permission error, anything else) or returns a file that is not regular (a directory,
  for one). The task then makes no call but the \<^verbatim>\<open>Stat\<close>.
\<close>

theorem uploadFile_skips_unless_regular:
  assumes "case fst (Stat env repoStore (FilePath env repoStore (CommitID file) (Path file))
                       (world s)) of
             Inl err \<Rightarrow> True
           | Inr fi \<Rightarrow> \<not> IsRegular fi"
  shows "fst (uploadFile env g repoStore file repoURI s) = None
       \<and> calls (snd (uploadFile env g repoStore file repoURI s)) =
           calls s @ [Call_Stat (FilePath env repoStore (CommitID file) (Path file))]
       \<and> opened (snd (uploadFile env g repoStore file repoURI s)) = opened s
       \<and> fst (Do par (uploadFile env g repoStore file repoURI) s) = par"
  using assms
  by (auto simp: uploadFile_def call_Stat_def Do_def Let_def split: prod.splits sum.splits)

text \<open>Two inputs: \<^verbatim>\<open>Stat\<close> fails with a permission error; the path is a directory.\<close>

theorem uploadFile_skips_unless_regular_witness:
  "fst (Stat (c_env id) store1 ''c1/A'' world_denied) = Inl (Error ''permission denied'')
   \<and> fst (uploadFile (c_env id) quiet store1 file_A ''github.com/a/b'' (start world_denied)) = None
   \<and> fst (Stat (c_env id) store1 ''c1/sub'' world_local) = Inr \<lparr>IsRegular = False, FileSize = 0\<rparr>
   \<and> fst (uploadFile (c_env id) quiet store1 file_sub ''github.com/a/b'' (start world_local)) = None
   \<and> fst (Do (NewRun 8) (uploadFile (c_env id) quiet store1 file_sub ''github.com/a/b'')
            (start world_local)) = NewRun 8"
proof -
  have a: "case fst (Stat (c_env id) store1
                       (FilePath (c_env id) store1 (CommitID file_A) (Path file_A))
                       (world (start world_denied))) of
             Inl err \<Rightarrow> True
           | Inr fi \<Rightarrow> \<not> IsRegular fi"
    by (simp add: c_defs w_defs)
  have b: "case fst (Stat (c_env id) store1
                       (FilePath (c_env id) store1 (CommitID file_sub) (Path file_sub))
                       (world (start world_local))) of
             Inl err \<Rightarrow> True
           | Inr fi \<Rightarrow> \<not> IsRegular fi"
    by (simp add: c_defs w_defs)
  have c: "fst (Stat (c_env id) store1 ''c1/A'' world_denied) = Inl (Error ''permission denied'')"
    by (simp add: c_defs w_defs)
  have d: "fst (Stat (c_env id) store1 ''c1/sub'' world_local) =
             Inr \<lparr>IsRegular = False, FileSize = 0\<rparr>"
    by (simp add: c_defs w_defs)
  from uploadFile_skips_unless_regular [OF a, of quiet "''github.com/a/b''" "NewRun 8"]
    uploadFile_skips_unless_regular [OF b, of quiet "''github.com/a/b''" "NewRun 8"] c d
  show ?thesis by simp
qed

text \<open>
  C1. In a push that transfers (the list flag is off and the setup has produced the
  repository, the store and the listing), every upload task whose \<^verbatim>\<open>Stat\<close> fails, as it
  does for a listed file that no longer exists, returns no error; and when every other
  task of the batch returns no error either, the command returns nil.
\<close>

theorem Push_skips_vanished_file:
  assumes "\<not> PushList c"
      and "fst (Push_setup env g (start w)) = Inr (repo, repoStore, localFiles)"
      and "\<forall>(file, s, r) \<in> set (push_batch env g (start w)).
             isl (fst (Stat env repoStore (FilePath env repoStore (CommitID file) (Path file))
                        (world s)))
             \<or> r = None"
  shows "(\<forall>(file, s, r) \<in> set (push_batch env g (start w)).
            isl (fst (Stat env repoStore (FilePath env repoStore (CommitID file) (Path file))
                       (world s)))
            \<longrightarrow> r = None)
       \<and> fst (PushCmd_Execute env g c (start w)) = Return None"
proof -
  obtain s4 where su: "Push_setup env g (start w) = (Inr (repo, repoStore, localFiles), s4)"
    using assms(2) by (cases "Push_setup env g (start w)") simp
  let ?task = "\<lambda>file. uploadFile env g repoStore file (RepoURI repo)"
  let ?rs = "runs ?task (completion env localFiles) (snd (call_NewRun 8 s4))"
  have batch: "push_batch env g (start w) = ?rs"
    by (simp add: push_batch_def su)
  have skipped: "r = None"
    if "(f, s, r) \<in> set ?rs"
      and "isl (fst (Stat env repoStore (FilePath env repoStore (CommitID f) (Path f)) (world s)))"
    for f s r
  proof -
    from that(2)
    have "case fst (Stat env repoStore (FilePath env repoStore (CommitID f) (Path f)) (world s)) of
            Inl err \<Rightarrow> True
          | Inr fi \<Rightarrow> \<not> IsRegular fi"
      by (auto split: sum.splits)
    then have "fst (?task f s) = None"
      by (auto simp: uploadFile_def call_Stat_def Let_def split: prod.splits sum.splits)
    with runs_result [OF that(1)] show ?thesis by simp
  qed
  have all_none: "\<forall>r \<in> set (results ?rs). r = None"
    using assms(3) skipped unfolding batch results_def by fastforce
  have "fst (PushCmd_Execute env g c (start w)) = Return (first_error (results ?rs))"
    using assms(1) by (simp add: Push_transfer_mode su)
  with all_none have "fst (PushCmd_Execute env g c (start w)) = Return None"
    by (simp add: first_error_None)
  with skipped show ?thesis unfolding batch by blast
qed

text \<open>The store of two files where the second has vanished since the listing: the push
  returns nil, and the first file has reached the remote.\<close>

theorem Push_skips_vanished_file_witness:
  "fst (Push_setup (c_env id) quiet (start world_vanished)) = Inr (repo1, store1, [file_A, file_B])
   \<and> isl (fst (Stat (c_env id) store1 ''c1/B'' world_vanished))
   \<and> fst (PushCmd_Execute (c_env id) quiet \<lparr>PushList = False\<rparr> (start world_vanished)) = Return None
   \<and> map fst (remote_files (world (snd (PushCmd_Execute (c_env id) quiet \<lparr>PushList = False\<rparr>
        (start world_vanished))))) = [fileSpecOf ''github.com/a/b'' ''c1'' ''A'']"
proof -
  have a: "\<not> PushList \<lparr>PushList = False\<rparr>" by simp
  have b: "fst (Push_setup (c_env id) quiet (start world_vanished)) =
             Inr (repo1, store1, [file_A, file_B])"
    by (simp add: m_defs c_defs w_defs)
  have c: "\<forall>(file, s, r) \<in> set (push_batch (c_env id) quiet (start world_vanished)).
             isl (fst (Stat (c_env id) store1
                        (FilePath (c_env id) store1 (CommitID file) (Path file)) (world s)))
             \<or> r = None"
    by (simp add: m_defs c_defs w_defs)
  have d: "isl (fst (Stat (c_env id) store1 ''c1/B'' world_vanished))"
    by (simp add: c_defs w_defs)
  have e: "map fst (remote_files (world (snd (PushCmd_Execute (c_env id) quiet \<lparr>PushList = False\<rparr>
        (start world_vanished))))) = [fileSpecOf ''github.com/a/b'' ''c1'' ''A'']"
    by (simp add: PushCmd_Execute_def m_defs c_defs w_defs)
  from Push_skips_vanished_file [OF a b c] b d e show ?thesis by simp
qed

section \<open>Pull: nothing on the remote\<close>

text \<open>
  C2. When the repository opens and the remote \<^verbatim>\<open>List\<close> returns the not-found sentinel
  (an error together with an HTTP response of status 404), \<^verbatim>\<open>pull\<close> logs that no remote
  build files were found and returns nil. It has made the two calls \<^verbatim>\<open>OpenRepo\<close> and
  \<^verbatim>\<open>List\<close> and no other: no store is opened, no task runs, nothing is printed.
\<close>

theorem Pull_not_found:
  assumes "fst (OpenRepo env w) = Inr repo"
      and "fst (BuildData_List env (rev_spec repo) (snd (OpenRepo env w))) =
             (remoteFiles, HTTPResponsePtr (Some hresp), Some err)"
      and "StatusCode hresp = 404"
  shows "fst (PullCmd_Execute env g c (start w)) = Return None
       \<and> calls (snd (PullCmd_Execute env g c (start w))) = [Call_OpenRepo, Call_List (rev_spec repo)]
       \<and> last (logs (snd (PullCmd_Execute env g c (start w)))) = No_remote_build_files_found
       \<and> stdout (snd (PullCmd_Execute env g c (start w))) = []
       \<and> world (snd (PullCmd_Execute env g c (start w))) =
           snd (BuildData_List env (rev_spec repo) (snd (OpenRepo env w)))
       \<and> pull_batch env g (start w) = []"
  using assms
  by (auto simp: PullCmd_Execute_def pull_batch_def Pull_setup_def Pull_listing_def
      call_OpenRepo_def call_List_def rev_spec_def is_NotFound_def StatusNotFound_def Let_def
      split: prod.splits sum.splits option.splits)

text \<open>A pull against the empty remote, with the list flag off and on.\<close>

theorem Pull_not_found_witness:
  "fst (OpenRepo (c_env id) world_local) = Inr repo1
   \<and> fst (BuildData_List (c_env id) (rev_spec repo1) (snd (OpenRepo (c_env id) world_local))) =
       ([], HTTPResponsePtr (Some \<lparr>StatusCode = 404\<rparr>), Some (Error ''404 Not Found''))
   \<and> PullCmd_Execute (c_env id) quiet \<lparr>List = False, URLs = False\<rparr> (start world_local) =
       (Return None,
        \<lparr>world = world_local, calls = [Call_OpenRepo, Call_List (rev_spec repo1)], opened = [],
         logs = [No_remote_build_files_found], stdout = []\<rparr>)
   \<and> fst (PullCmd_Execute (c_env id) quiet \<lparr>List = True, URLs = False\<rparr> (start world_local)) =
       Return None"
proof -
  have a: "fst (OpenRepo (c_env id) world_local) = Inr repo1"
    by (simp add: c_defs w_defs)
  have b: "fst (BuildData_List (c_env id) (rev_spec repo1) (snd (OpenRepo (c_env id) world_local))) =
             ([], HTTPResponsePtr (Some \<lparr>StatusCode = 404\<rparr>), Some (Error ''404 Not Found''))"
    by (simp add: m_defs c_defs w_defs)
  have c: "StatusCode \<lparr>StatusCode = 404\<rparr> = 404" by simp
  have d: "PullCmd_Execute (c_env id) quiet \<lparr>List = False, URLs = False\<rparr> (start world_local) =
       (Return None,
        \<lparr>world = world_local, calls = [Call_OpenRepo, Call_List (rev_spec repo1)], opened = [],
         logs = [No_remote_build_files_found], stdout = []\<rparr>)"
    by (simp add: PullCmd_Execute_def called_def log_Printf_def start_def m_defs c_defs w_defs)
  from Pull_not_found [OF a b c, of quiet "\<lparr>List = True, URLs = False\<rparr>"] a b d
  show ?thesis by simp
qed

section \<open>List-only mode\<close>

text \<open>
  C5. With the list flag set, neither command makes a call that writes to a store
  (\<^verbatim>\<open>MkdirAll\<close>, \<^verbatim>\<open>Create\<close>, \<^verbatim>\<open>Copy\<close>, \<^verbatim>\<open>Upload\<close>) nor any other call of a transfer task,
  whatever the outcome, and the world is as the listing steps left it; once the
  listing has been obtained, the command prints the listed records (for pull: size,
  time and path, and the URL line when asked; for push: the path) and returns nil.
\<close>

theorem list_only_writes_nothing:
  "(List c \<longrightarrow>
      (\<forall>x \<in> set (calls (snd (PullCmd_Execute env g c (start w)))).
         \<not> is_write x \<and> \<not> is_transfer x)
    \<and> world (snd (PullCmd_Execute env g c (start w))) = world (snd (Pull_listing env g (start w)))
    \<and> (fst (Pull_listing env g (start w)) = Inr (repo, remoteFiles) \<longrightarrow>
          fst (PullCmd_Execute env g c (start w)) = Return None
        \<and> stdout (snd (PullCmd_Execute env g c (start w))) =
            concat (map (\<lambda>file. File_line (Size file mod 2 ^ 64) (ModTime file) (Path file) #
              (if URLs c then [URL_line \<lparr>RepoRev = rev_spec repo, SpecPath = Path file\<rparr>] else []))
              remoteFiles)))
   \<and> (PushList d \<longrightarrow>
      (\<forall>x \<in> set (calls (snd (PushCmd_Execute env g d (start w)))).
         \<not> is_write x \<and> \<not> is_transfer x)
    \<and> world (snd (PushCmd_Execute env g d (start w))) = world (snd (Push_setup env g (start w)))
    \<and> (fst (Push_setup env g (start w)) = Inr (repo', repoStore, localFiles) \<longrightarrow>
          fst (PushCmd_Execute env g d (start w)) = Return None
        \<and> stdout (snd (PushCmd_Execute env g d (start w))) =
            map (\<lambda>file. Path_line (Path file)) localFiles))"
proof -
  have pull:
    "(\<forall>x \<in> set (calls (snd (PullCmd_Execute env g c (start w)))).
        \<not> is_write x \<and> \<not> is_transfer x)
    \<and> world (snd (PullCmd_Execute env g c (start w))) = world (snd (Pull_listing env g (start w)))
    \<and> (fst (Pull_listing env g (start w)) = Inr (repo, remoteFiles) \<longrightarrow>
          fst (PullCmd_Execute env g c (start w)) = Return None
        \<and> stdout (snd (PullCmd_Execute env g c (start w))) =
            concat (map (\<lambda>file. File_line (Size file mod 2 ^ 64) (ModTime file) (Path file) #
              (if URLs c then [URL_line \<lparr>RepoRev = rev_spec repo, SpecPath = Path file\<rparr>] else []))
              remoteFiles))"
    if "List c"
  proof -
    obtain r s where l: "Pull_listing env g (start w) = (r, s)"
      by (cases "Pull_listing env g (start w)")
    have cs: "\<forall>x \<in> set (calls s). \<not> is_write x \<and> \<not> is_transfer x"
      using Pull_listing_calls [of env g w] by (simp add: l)
    have out: "stdout s = []"
      using Pull_listing_frame(2) [of env g w] by (simp add: l)
    show ?thesis
    proof (cases r)
      case (Inl out)
      with that l cs show ?thesis by (simp add: Pull_list_mode)
    next
      case (Inr v)
      with that l cs out show ?thesis
        by (cases v) (simp add: Pull_list_mode stdout_print_remote)
    qed
  qed
  have push:
    "(\<forall>x \<in> set (calls (snd (PushCmd_Execute env g d (start w)))).
        \<not> is_write x \<and> \<not> is_transfer x)
    \<and> world (snd (PushCmd_Execute env g d (start w))) = world (snd (Push_setup env g (start w)))
    \<and> (fst (Push_setup env g (start w)) = Inr (repo', repoStore, localFiles) \<longrightarrow>
          fst (PushCmd_Execute env g d (start w)) = Return None
        \<and> stdout (snd (PushCmd_Execute env g d (start w))) =
            map (\<lambda>file. Path_line (Path file)) localFiles)"
    if "PushList d"
  proof -
    obtain r s where l: "Push_setup env g (start w) = (r, s)"
      by (cases "Push_setup env g (start w)")
    have cs: "\<forall>x \<in> set (calls s). \<not> is_write x \<and> \<not> is_transfer x"
      using Push_setup_calls [of env g w] by (simp add: l)
    have out: "stdout s = []"
      using Push_setup_frame(2) [of env g w] by (simp add: l)
    show ?thesis
    proof (cases r)
      case (Inl out)
      with that l cs show ?thesis by (simp add: Push_list_mode)
    next
      case (Inr v)
      with that l cs out show ?thesis
        by (cases v) (auto simp: Push_list_mode stdout_print_local)
    qed
  qed
  from pull push show ?thesis by blast
qed

text \<open>Listing the remote of two files, and the local store of two files: both stores are
  as they were, and the records are printed.\<close>

theorem list_only_writes_nothing_witness:
  "fst (Pull_listing (c_env id) quiet (start world_remote)) = Inr (repo1, [file_A, file_B])
   \<and> PullCmd_Execute (c_env id) quiet \<lparr>List = True, URLs = False\<rparr> (start world_remote) =
       (Return None,
        \<lparr>world = world_remote, calls = [Call_OpenRepo, Call_List (rev_spec repo1)], opened = [],
         logs = [Remote_build_files Method_URI ''c1''],
         stdout = [File_line 10 [] ''A'', File_line 0 [] ''B'']\<rparr>)
   \<and> fst (Push_setup (c_env id) quiet (start world_local)) = Inr (repo1, store1, [file_A, file_B])
   \<and> PushCmd_Execute (c_env id) quiet \<lparr>PushList = True\<rparr> (start world_local) =
       (Return None,
        \<lparr>world = world_local,
         calls = [Call_OpenRepo, Call_NewRepositoryStore ''/src/app'', Call_AllDataFiles],
         opened = [], logs = [Local_build_files Method_URI ''c1''],
         stdout = [Path_line ''A'', Path_line ''B'']\<rparr>)"
proof -
  have a: "fst (Pull_listing (c_env id) quiet (start world_remote)) = Inr (repo1, [file_A, file_B])"
    by (simp add: m_defs c_defs w_defs)
  have b: "PullCmd_Execute (c_env id) quiet \<lparr>List = True, URLs = False\<rparr> (start world_remote) =
       (Return None,
        \<lparr>world = world_remote, calls = [Call_OpenRepo, Call_List (rev_spec repo1)], opened = [],
         logs = [Remote_build_files Method_URI ''c1''],
         stdout = [File_line 10 [] ''A'', File_line 0 [] ''B'']\<rparr>)"
    by (simp add: PullCmd_Execute_def called_def log_Printf_def fmt_Println_def start_def
        m_defs c_defs w_defs)
  have c: "fst (Push_setup (c_env id) quiet (start world_local)) =
             Inr (repo1, store1, [file_A, file_B])"
    by (simp add: m_defs c_defs w_defs)
  have d: "PushCmd_Execute (c_env id) quiet \<lparr>PushList = True\<rparr> (start world_local) =
       (Return None,
        \<lparr>world = world_local,
         calls = [Call_OpenRepo, Call_NewRepositoryStore ''/src/app'', Call_AllDataFiles],
         opened = [], logs = [Local_build_files Method_URI ''c1''],
         stdout = [Path_line ''A'', Path_line ''B'']\<rparr>)"
    by (simp add: PushCmd_Execute_def called_def log_Printf_def fmt_Println_def start_def
        m_defs c_defs w_defs)
  from list_only_writes_nothing
         [of "\<lparr>List = True, URLs = False\<rparr>" "c_env id" quiet world_remote repo1 "[file_A, file_B]"
             "\<lparr>PushList = True\<rparr>"]
       list_only_writes_nothing
         [of "\<lparr>List = True, URLs = False\<rparr>" "c_env id" quiet world_local _ _
             "\<lparr>PushList = True\<rparr>" repo1 store1 "[file_A, file_B]"]
       a b c d
  show ?thesis by simp
qed

section \<open>Setup failures\<close>

text \<open>How each command ends when a step before the batch fails.\<close>

lemma Pull_setup_abort:
  "\<not> List c \<Longrightarrow> fst (Pull_setup env g (start w)) = Inl out \<Longrightarrow>
   PullCmd_Execute env g c (start w) = (out, snd (Pull_setup env g (start w)))
   \<and> (\<forall>x \<in> set (calls (snd (PullCmd_Execute env g c (start w)))). \<not> is_transfer x)
   \<and> pull_batch env g (start w) = []"
  using Pull_setup_calls [of env g w]
  by (cases "Pull_setup env g (start w)") (auto simp: Pull_transfer_mode pull_batch_def)

lemma Push_setup_abort:
  "fst (Push_setup env g (start w)) = Inl out \<Longrightarrow>
   PushCmd_Execute env g d (start w) = (out, snd (Push_setup env g (start w)))
   \<and> (\<forall>x \<in> set (calls (snd (PushCmd_Execute env g d (start w)))). \<not> is_transfer x)
   \<and> push_batch env g (start w) = []"
  using Push_setup_calls [of env g w]
  by (cases "Push_setup env g (start w)"; cases "PushList d")
     (auto simp: Push_transfer_mode Push_list_mode push_batch_def)

lemma OpenRepo_failure:
  "fst (OpenRepo env w) = Inl err \<Longrightarrow>
   fst (Pull_listing env g (start w)) = Inl (Return (Some err)) \<and>
   fst (Pull_setup env g (start w)) = Inl (Return (Some err)) \<and>
   fst (Push_setup env g (start w)) = Inl (Return (Some err)) \<and>
   logs (snd (Pull_listing env g (start w))) = [] \<and>
   logs (snd (Push_setup env g (start w))) = []"
  by (auto simp: Pull_setup_def Pull_listing_def Push_setup_def call_OpenRepo_def split: prod.splits sum.splits)

lemma Pull_store_failure:
  "fst (Pull_listing env g (start w)) = Inr (repo, remoteFiles) \<Longrightarrow>
   fst (NewRepositoryStore env (RootDir repo) (world (snd (Pull_listing env g (start w))))) = Inl err \<Longrightarrow>
   fst (Pull_setup env g (start w)) = Inl (Return (Some err))
   \<and> logs (snd (Pull_setup env g (start w))) = logs (snd (Pull_listing env g (start w)))"
  by (auto simp: Pull_setup_def call_NewRepositoryStore_def split: prod.splits sum.splits)

lemma Push_store_failure:
  "fst (OpenRepo env w) = Inr repo \<Longrightarrow>
   fst (NewRepositoryStore env (RootDir repo) (snd (OpenRepo env w))) = Inl err \<Longrightarrow>
   fst (Push_setup env g (start w)) = Inl (Fatal err)
   \<and> last (logs (snd (Push_setup env g (start w)))) = Fatal_line err"
  by (auto simp: Push_setup_def call_OpenRepo_def call_NewRepositoryStore_def split: prod.splits sum.splits)

lemma Pull_List_failure:
  "fst (OpenRepo env w) = Inr repo \<Longrightarrow>
   fst (BuildData_List env (rev_spec repo) (snd (OpenRepo env w))) = (remoteFiles, resp, Some err) \<Longrightarrow>
   \<not> is_NotFound resp \<Longrightarrow>
   fst (Pull_listing env g (start w)) = Inl (Fatal err)
   \<and> last (logs (snd (Pull_listing env g (start w)))) = Fatal_line err"
  by (auto simp: Pull_listing_def call_OpenRepo_def call_List_def split: prod.splits sum.splits)


lemma Pull_listing_abort:
  "fst (Pull_listing env g (start w)) = Inl out \<Longrightarrow>
   PullCmd_Execute env g c (start w) = (out, snd (Pull_listing env g (start w)))"
  by (cases "Pull_listing env g (start w)"; cases "List c")
     (auto simp: Pull_transfer_mode Pull_list_mode Pull_setup_def)

lemma Pull_batch_result:
  "\<not> List c \<Longrightarrow> \<not> isl (fst (Pull_setup env g (start w))) \<Longrightarrow>
   fst (PullCmd_Execute env g c (start w)) = Return (first_error (results (pull_batch env g (start w))))"
  by (cases "Pull_setup env g (start w)")
     (auto simp: Pull_transfer_mode pull_batch_def split: sum.splits)

lemma Push_batch_result:
  "\<not> PushList d \<Longrightarrow> \<not> isl (fst (Push_setup env g (start w))) \<Longrightarrow>
   fst (PushCmd_Execute env g d (start w)) = Return (first_error (results (push_batch env g (start w))))"
  by (cases "Push_setup env g (start w)")
     (auto simp: Push_transfer_mode push_batch_def split: sum.splits)

text \<open>
  C6, as the source has it. A failure of the revision resolution (\<^verbatim>\<open>OpenRepo\<close>) is
  returned to the caller by both commands, with nothing logged, and so is a failure to
  open the local store in pull; a failure to open the store in push, and a failure of
  the remote listing other than not-found in pull, end the process in \<^verbatim>\<open>log.Fatal\<close>.
  In every case the run ends before any transfer task is submitted: no call of a task
  is made and the batch is empty. When the setup succeeds, the errors of the tasks
  reach the caller as the one returned error of the batch, never as a fatal exit.
\<close>

theorem setup_failure_outcomes:
  "(fst (OpenRepo env w) = Inl err \<longrightarrow>
      fst (PullCmd_Execute env g c (start w)) = Return (Some err)
    \<and> logs (snd (PullCmd_Execute env g c (start w))) = []
    \<and> fst (PushCmd_Execute env g d (start w)) = Return (Some err)
    \<and> logs (snd (PushCmd_Execute env g d (start w))) = [])
   \<and> (\<not> List c \<longrightarrow> fst (Pull_listing env g (start w)) = Inr (repo, remoteFiles) \<longrightarrow>
        fst (NewRepositoryStore env (RootDir repo) (world (snd (Pull_listing env g (start w))))) =
          Inl err \<longrightarrow>
        fst (PullCmd_Execute env g c (start w)) = Return (Some err)
      \<and> logs (snd (PullCmd_Execute env g c (start w))) = logs (snd (Pull_listing env g (start w))))
   \<and> (fst (OpenRepo env w) = Inr repo \<longrightarrow>
        fst (NewRepositoryStore env (RootDir repo) (snd (OpenRepo env w))) = Inl err \<longrightarrow>
        fst (PushCmd_Execute env g d (start w)) = Fatal err
      \<and> last (logs (snd (PushCmd_Execute env g d (start w)))) = Fatal_line err)
   \<and> (fst (OpenRepo env w) = Inr repo \<longrightarrow>
        fst (BuildData_List env (rev_spec repo) (snd (OpenRepo env w))) = (remoteFiles, resp, Some err) \<longrightarrow>
        \<not> is_NotFound resp \<longrightarrow>
        fst (PullCmd_Execute env g c (start w)) = Fatal err
      \<and> last (logs (snd (PullCmd_Execute env g c (start w)))) = Fatal_line err)
   \<and> (\<not> List c \<longrightarrow> isl (fst (Pull_setup env g (start w))) \<longrightarrow>
        (\<forall>x \<in> set (calls (snd (PullCmd_Execute env g c (start w)))). \<not> is_transfer x)
      \<and> pull_batch env g (start w) = [])
   \<and> (isl (fst (Push_setup env g (start w))) \<longrightarrow>
        (\<forall>x \<in> set (calls (snd (PushCmd_Execute env g d (start w)))). \<not> is_transfer x)
      \<and> push_batch env g (start w) = [])
   \<and> (\<not> List c \<longrightarrow> \<not> isl (fst (Pull_setup env g (start w))) \<longrightarrow>
        fst (PullCmd_Execute env g c (start w)) =
          Return (first_error (results (pull_batch env g (start w)))))
   \<and> (\<not> PushList d \<longrightarrow> \<not> isl (fst (Push_setup env g (start w))) \<longrightarrow>
        fst (PushCmd_Execute env g d (start w)) =
          Return (first_error (results (push_batch env g (start w)))))"
proof (intro conjI impI)
  assume a: "fst (OpenRepo env w) = Inl err"
  from OpenRepo_failure [OF a, of g]
  show "fst (PullCmd_Execute env g c (start w)) = Return (Some err)"
    and "logs (snd (PullCmd_Execute env g c (start w))) = []"
    and "fst (PushCmd_Execute env g d (start w)) = Return (Some err)"
    and "logs (snd (PushCmd_Execute env g d (start w))) = []"
    by (simp_all add: Pull_listing_abort Push_setup_abort)
next
  assume "\<not> List c" "fst (Pull_listing env g (start w)) = Inr (repo, remoteFiles)"
    "fst (NewRepositoryStore env (RootDir repo) (world (snd (Pull_listing env g (start w))))) = Inl err"
  then show "fst (PullCmd_Execute env g c (start w)) = Return (Some err)"
    and "logs (snd (PullCmd_Execute env g c (start w))) = logs (snd (Pull_listing env g (start w)))"
    using Pull_store_failure [of env g w repo remoteFiles err]
    by (simp_all add: Pull_setup_abort)
next
  assume "fst (OpenRepo env w) = Inr repo"
    "fst (NewRepositoryStore env (RootDir repo) (snd (OpenRepo env w))) = Inl err"
  then show "fst (PushCmd_Execute env g d (start w)) = Fatal err"
    and "last (logs (snd (PushCmd_Execute env g d (start w)))) = Fatal_line err"
    using Push_store_failure [of env w repo err g]
    by (simp_all add: Push_setup_abort)
next
  assume "fst (OpenRepo env w) = Inr repo"
    "fst (BuildData_List env (rev_spec repo) (snd (OpenRepo env w))) = (remoteFiles, resp, Some err)"
    "\<not> is_NotFound resp"
  then show "fst (PullCmd_Execute env g c (start w)) = Fatal err"
    and "last (logs (snd (PullCmd_Execute env g c (start w)))) = Fatal_line err"
    using Pull_List_failure [of env w repo remoteFiles resp err g]
    by (simp_all add: Pull_listing_abort)
next
  assume "\<not> List c" "isl (fst (Pull_setup env g (start w)))"
  then obtain out where "fst (Pull_setup env g (start w)) = Inl out"
    by (cases "fst (Pull_setup env g (start w))") simp_all
  with \<open>\<not> List c\<close> Pull_setup_abort [of c env g w out]
  show "\<forall>x \<in> set (calls (snd (PullCmd_Execute env g c (start w)))). \<not> is_transfer x"
    and "pull_batch env g (start w) = []"
    by blast+
next
  assume "isl (fst (Push_setup env g (start w)))"
  then obtain out where "fst (Push_setup env g (start w)) = Inl out"
    by (cases "fst (Push_setup env g (start w))") simp_all
  with Push_setup_abort [of env g w out d]
  show "\<forall>x \<in> set (calls (snd (PushCmd_Execute env g d (start w)))). \<not> is_transfer x"
    and "push_batch env g (start w) = []"
    by blast+
next
  assume "\<not> List c" "\<not> isl (fst (Pull_setup env g (start w)))"
  then show "fst (PullCmd_Execute env g c (start w)) =
          Return (first_error (results (pull_batch env g (start w))))"
    by (rule Pull_batch_result)
next
  assume "\<not> PushList d" "\<not> isl (fst (Push_setup env g (start w)))"
  then show "fst (PushCmd_Execute env g d (start w)) =
          Return (first_error (results (push_batch env g (start w))))"
    by (rule Push_batch_result)
qed

text \<open>The sentence as the spec words it, that a revision resolution or store initialization
  failure ends in a fatal log, fails on these runs: with no repository both commands
  return the error and log nothing, and with no store pull returns the error.\<close>

theorem setup_failure_returned_not_fatal:
  "PullCmd_Execute (c_env id) quiet \<lparr>List = False, URLs = False\<rparr> (start world_no_repo) =
     (Return (Some (Error ''not a repository'')),
      \<lparr>world = world_no_repo, calls = [Call_OpenRepo], opened = [], logs = [], stdout = []\<rparr>)
   \<and> PushCmd_Execute (c_env id) quiet \<lparr>PushList = False\<rparr> (start world_no_repo) =
     (Return (Some (Error ''not a repository'')),
      \<lparr>world = world_no_repo, calls = [Call_OpenRepo], opened = [], logs = [], stdout = []\<rparr>)
   \<and> PullCmd_Execute (c_env id) quiet \<lparr>List = False, URLs = False\<rparr> (start world_no_store) =
     (Return (Some (Error ''permission denied'')),
      \<lparr>world = world_no_store,
       calls = [Call_OpenRepo, Call_List (rev_spec repo1), Call_NewRepositoryStore ''/src/app''],
       opened = [], logs = [], stdout = []\<rparr>)"
  by (simp add: PullCmd_Execute_def PushCmd_Execute_def called_def log_Printf_def start_def
      m_defs c_defs w_defs)

text \<open>The theorem at the worlds without a repository, without a store, and with a file
  that cannot be created.\<close>

theorem setup_failure_outcomes_witness:
  "fst (OpenRepo (c_env id) world_no_repo) = Inl (Error ''not a repository'')
   \<and> fst (PullCmd_Execute (c_env id) quiet \<lparr>List = False, URLs = False\<rparr> (start world_no_repo)) =
       Return (Some (Error ''not a repository''))
   \<and> fst (PushCmd_Execute (c_env id) quiet \<lparr>PushList = False\<rparr> (start world_no_repo)) =
       Return (Some (Error ''not a repository''))
   \<and> fst (NewRepositoryStore (c_env id) ''/src/app'' world_no_store) = Inl (Error ''permission denied'')
   \<and> fst (PullCmd_Execute (c_env id) quiet \<lparr>List = False, URLs = False\<rparr> (start world_no_store)) =
       Return (Some (Error ''permission denied''))
   \<and> fst (PushCmd_Execute (c_env id) quiet \<lparr>PushList = False\<rparr> (start world_no_store)) =
       Fatal (Error ''permission denied'')
   \<and> last (logs (snd (PushCmd_Execute (c_env id) quiet \<lparr>PushList = False\<rparr> (start world_no_store)))) =
       Fatal_line (Error ''permission denied'')
   \<and> pull_batch (c_env id) quiet (start world_no_store) = []
   \<and> push_batch (c_env id) quiet (start world_no_store) = []
   \<and> fst (PullCmd_Execute (c_env id) quiet \<lparr>List = False, URLs = False\<rparr> (start world_disk_full)) =
       Return (Some (Error ''disk full''))"
proof -
  let ?c = "\<lparr>List = False, URLs = False\<rparr>" and ?d = "\<lparr>PushList = False\<rparr>"
  have a: "fst (OpenRepo (c_env id) world_no_repo) = Inl (Error ''not a repository'')"
    by (simp add: c_defs w_defs)
  have b: "fst (OpenRepo (c_env id) world_no_store) = Inr repo1"
    by (simp add: c_defs w_defs)
  have c: "fst (Pull_listing (c_env id) quiet (start world_no_store)) = Inr (repo1, [file_A, file_B])"
    by (simp add: m_defs c_defs w_defs)
  have d: "fst (NewRepositoryStore (c_env id) (RootDir repo1)
             (world (snd (Pull_listing (c_env id) quiet (start world_no_store))))) =
           Inl (Error ''permission denied'')"
    by (simp add: m_defs c_defs w_defs)
  have e: "fst (NewRepositoryStore (c_env id) (RootDir repo1) (snd (OpenRepo (c_env id) world_no_store))) =
           Inl (Error ''permission denied'')"
    by (simp add: m_defs c_defs w_defs)
  have f: "isl (fst (Pull_setup (c_env id) quiet (start world_no_store)))"
    "isl (fst (Push_setup (c_env id) quiet (start world_no_store)))"
    by (simp_all add: m_defs c_defs w_defs)
  have h: "\<not> isl (fst (Pull_setup (c_env id) quiet (start world_disk_full)))"
    by (simp add: m_defs c_defs w_defs)
  have i: "first_error (results (pull_batch (c_env id) quiet (start world_disk_full))) =
             Some (Error ''disk full'')"
    by (simp add: results_def m_defs c_defs w_defs)
  have j: "fst (NewRepositoryStore (c_env id) ''/src/app'' world_no_store) = Inl (Error ''permission denied'')"
    by (simp add: c_defs w_defs)
  have n: "\<not> List ?c" "\<not> PushList ?d" by simp_all
  from setup_failure_outcomes [of "c_env id" world_no_repo "Error ''not a repository''" quiet ?c ?d]
    setup_failure_outcomes [of "c_env id" world_no_store "Error ''permission denied''" quiet ?c ?d
      repo1 "[file_A, file_B]"]
    setup_failure_outcomes [of "c_env id" world_disk_full _ quiet ?c ?d]
    a b c d e f h i j n
  show ?thesis by simp
qed

section \<open>The batch\<close>

text \<open>The calls of a task start with its \<^verbatim>\<open>Get\<close> or \<^verbatim>\<open>Stat\<close> and stay among the calls
  addressed by its record; the calls of a batch are those of its tasks.\<close>

lemma fetchFile_calls:
  "\<exists>cs. calls (snd (fetchFile env g repoStore repoURI fi s)) =
          calls s @ Call_Get (fileSpecOf repoURI (CommitID fi) (Path fi)) # cs
      \<and> set cs \<subseteq> fetch_calls env repoStore repoURI fi"
  by (auto simp: fetchFile_def fetch_calls_def fileSpecOf_def call_Get_def call_MkdirAll_def
      call_Create_def call_Copy_def call_Close_def open_result_def deferred_def Let_def
      split: prod.splits sum.splits option.splits)

lemma uploadFile_calls:
  "\<exists>cs. calls (snd (uploadFile env g repoStore fi repoURI s)) =
          calls s @ Call_Stat (FilePath env repoStore (CommitID fi) (Path fi)) # cs
      \<and> set cs \<subseteq> upload_calls env repoStore repoURI fi"
  by (auto simp: uploadFile_def upload_calls_def fileSpecOf_def call_Stat_def call_Open_def
      call_Upload_def open_result_def Let_def
      split: prod.splits sum.splits option.splits)

lemma range_Do_calls:
  assumes "\<And>f s. \<exists>cs. calls (snd (task f s)) = calls s @ first f # cs \<and> set cs \<subseteq> allowed f"
      and "\<And>f. first f \<in> allowed f"
  shows "\<exists>cs. calls (snd (range_Do par task files s)) = calls s @ cs
            \<and> first ` set files \<subseteq> set cs \<and> set cs \<subseteq> (\<Union>f \<in> set files. allowed f)"
proof (induction files arbitrary: par s)
  case Nil
  then show ?case by simp
next
  case (Cons f fs)
  obtain r s' where st: "task f s = (r, s')" by (cases "task f s")
  obtain par' where par': "Do par (task f) s = (par', s')"
    using st by (cases r) (simp_all add: Do_def)
  from assms(1) [of f s] st obtain cs where
    cs: "calls s' = calls s @ first f # cs" "set cs \<subseteq> allowed f" by auto
  from Cons.IH [of par' s'] obtain cs' where
    cs': "calls (snd (range_Do par' task fs s')) = calls s' @ cs'" "first ` set fs \<subseteq> set cs'"
      "set cs' \<subseteq> (\<Union>f \<in> set fs. allowed f)"
    by auto
  show ?case
    using par' cs cs' assms(2) [of f] by (intro exI [of _ "first f # cs @ cs'"]) auto
qed

lemma Pull_batch_calls:
  assumes "\<not> List c" and "fst (Pull_setup env g (start w)) = Inr (repo, repoStore, remoteFiles)"
  shows "(\<forall>fi \<in> set (completion env remoteFiles).
            Call_Get (fileSpecOf (RepoURI repo) (CommitID fi) (Path fi))
              \<in> set (calls (snd (PullCmd_Execute env g c (start w)))))
       \<and> (\<forall>x \<in> set (calls (snd (PullCmd_Execute env g c (start w)))).
            is_transfer x \<longrightarrow>
            x \<in> (\<Union>fi \<in> set (completion env remoteFiles). fetch_calls env repoStore (RepoURI repo) fi))"
proof -
  obtain s4 where su: "Pull_setup env g (start w) = (Inr (repo, repoStore, remoteFiles), s4)"
    using assms(2) by (cases "Pull_setup env g (start w)") simp
  let ?s5 = "snd (call_NewRun 8 s4)"
  have pre: "\<forall>x \<in> set (calls ?s5). \<not> is_transfer x"
    using Pull_setup_calls [of env g w] by (simp add: su call_NewRun_def)
  have first_in: "Call_Get (fileSpecOf (RepoURI repo) (CommitID fi) (Path fi))
      \<in> fetch_calls env repoStore (RepoURI repo) fi" for fi
    by (simp add: fetch_calls_def fileSpecOf_def Let_def)
  from range_Do_calls [of "fetchFile env g repoStore (RepoURI repo)"
      "\<lambda>fi. Call_Get (fileSpecOf (RepoURI repo) (CommitID fi) (Path fi))"
      "fetch_calls env repoStore (RepoURI repo)" "NewRun 8" "completion env remoteFiles" ?s5,
      OF fetchFile_calls first_in]
  obtain cs where cs:
    "calls (snd (range_Do (NewRun 8) (fetchFile env g repoStore (RepoURI repo))
       (completion env remoteFiles) ?s5)) = calls ?s5 @ cs"
    "(\<lambda>fi. Call_Get (fileSpecOf (RepoURI repo) (CommitID fi) (Path fi))) ` set (completion env remoteFiles)
       \<subseteq> set cs"
    "set cs \<subseteq> (\<Union>fi \<in> set (completion env remoteFiles). fetch_calls env repoStore (RepoURI repo) fi)"
    by blast
  have ex: "snd (PullCmd_Execute env g c (start w)) =
      snd (range_Do (NewRun 8) (fetchFile env g repoStore (RepoURI repo))
       (completion env remoteFiles) ?s5)"
    using assms(1) by (simp add: Pull_transfer_mode su)
  show ?thesis
    unfolding ex cs(1) using cs(2,3) pre by auto
qed

lemma Push_batch_calls:
  assumes "\<not> PushList d" and "fst (Push_setup env g (start w)) = Inr (repo, repoStore, localFiles)"
  shows "(\<forall>fi \<in> set (completion env localFiles).
            Call_Stat (FilePath env repoStore (CommitID fi) (Path fi))
              \<in> set (calls (snd (PushCmd_Execute env g d (start w)))))
       \<and> (\<forall>x \<in> set (calls (snd (PushCmd_Execute env g d (start w)))).
            is_transfer x \<longrightarrow>
            x \<in> (\<Union>fi \<in> set (completion env localFiles). upload_calls env repoStore (RepoURI repo) fi))"
proof -
  obtain s4 where su: "Push_setup env g (start w) = (Inr (repo, repoStore, localFiles), s4)"
    using assms(2) by (cases "Push_setup env g (start w)") simp
  let ?s5 = "snd (call_NewRun 8 s4)"
  have pre: "\<forall>x \<in> set (calls ?s5). \<not> is_transfer x"
    using Push_setup_calls [of env g w] by (simp add: su call_NewRun_def)
  have first_in: "Call_Stat (FilePath env repoStore (CommitID fi) (Path fi))
      \<in> upload_calls env repoStore (RepoURI repo) fi" for fi
    by (simp add: upload_calls_def Let_def)
  from range_Do_calls [of "\<lambda>file. uploadFile env g repoStore file (RepoURI repo)"
      "\<lambda>fi. Call_Stat (FilePath env repoStore (CommitID fi) (Path fi))"
      "upload_calls env repoStore (RepoURI repo)" "NewRun 8" "completion env localFiles" ?s5,
      OF uploadFile_calls first_in]
  obtain cs where cs:
    "calls (snd (range_Do (NewRun 8) (\<lambda>file. uploadFile env g repoStore file (RepoURI repo))
       (completion env localFiles) ?s5)) = calls ?s5 @ cs"
    "(\<lambda>fi. Call_Stat (FilePath env repoStore (CommitID fi) (Path fi))) ` set (completion env localFiles)
       \<subseteq> set cs"
    "set cs \<subseteq> (\<Union>fi \<in> set (completion env localFiles). upload_calls env repoStore (RepoURI repo) fi)"
    by blast
  have ex: "snd (PushCmd_Execute env g d (start w)) =
      snd (range_Do (NewRun 8) (\<lambda>file. uploadFile env g repoStore file (RepoURI repo))
       (completion env localFiles) ?s5)"
    using assms(1) by (simp add: Push_transfer_mode su)
  show ?thesis
    unfolding ex cs(1) using cs(2,3) pre by auto
qed

lemma Pull_batch_runs:
  assumes "fst (Pull_setup env g (start w)) = Inr (repo, repoStore, remoteFiles)"
  shows "map fst (pull_batch env g (start w)) = completion env remoteFiles"
    and "\<forall>(fi, s, r) \<in> set (pull_batch env g (start w)).
           r = fst (fetchFile env g repoStore (RepoURI repo) fi s)"
proof -
  obtain s4 where su: "Pull_setup env g (start w) = (Inr (repo, repoStore, remoteFiles), s4)"
    using assms by (cases "Pull_setup env g (start w)") simp
  show "map fst (pull_batch env g (start w)) = completion env remoteFiles"
    by (simp add: pull_batch_def su)
  show "\<forall>(fi, s, r) \<in> set (pull_batch env g (start w)).
           r = fst (fetchFile env g repoStore (RepoURI repo) fi s)"
    using runs_result [of _ _ _ "fetchFile env g repoStore (RepoURI repo)"]
    by (auto simp: pull_batch_def su)
qed

lemma Push_batch_runs:
  assumes "fst (Push_setup env g (start w)) = Inr (repo, repoStore, localFiles)"
  shows "map fst (push_batch env g (start w)) = completion env localFiles"
    and "\<forall>(fi, s, r) \<in> set (push_batch env g (start w)).
           r = fst (uploadFile env g repoStore fi (RepoURI repo) s)"
proof -
  obtain s4 where su: "Push_setup env g (start w) = (Inr (repo, repoStore, localFiles), s4)"
    using assms by (cases "Push_setup env g (start w)") simp
  show "map fst (push_batch env g (start w)) = completion env localFiles"
    by (simp add: push_batch_def su)
  show "\<forall>(fi, s, r) \<in> set (push_batch env g (start w)).
           r = fst (uploadFile env g repoStore fi (RepoURI repo) s)"
    using runs_result [of _ _ _ "\<lambda>file. uploadFile env g repoStore file (RepoURI repo)"]
    by (auto simp: push_batch_def su)
qed

text \<open>
  C4. In a pull or push that transfers, with the tasks completing in any order, the
  command returns the first error among the results of the tasks in the order of
  completion, and returns nil exactly when every task returned nil; it never ends in a
  fatal exit. Each result is the result of \<^verbatim>\<open>fetchFile\<close> (\<^verbatim>\<open>uploadFile\<close>) on that record,
  every listed record has its task in the batch, and the first call of every task is
  among the calls of the run, whichever tasks failed before it.
\<close>

theorem batch_fails_with_first_error:
  "(\<not> List c \<longrightarrow> fst (Pull_setup env g (start w)) = Inr (repo, repoStore, remoteFiles) \<longrightarrow>
    mset (completion env remoteFiles) = mset remoteFiles \<longrightarrow>
      fst (PullCmd_Execute env g c (start w)) =
        Return (first_error (results (pull_batch env g (start w))))
    \<and> (fst (PullCmd_Execute env g c (start w)) = Return None \<longleftrightarrow>
         (\<forall>r \<in> set (results (pull_batch env g (start w))). r = None))
    \<and> (\<forall>(fi, s, r) \<in> set (pull_batch env g (start w)).
          r = fst (fetchFile env g repoStore (RepoURI repo) fi s))
    \<and> mset (map fst (pull_batch env g (start w))) = mset remoteFiles
    \<and> (\<forall>fi \<in> set remoteFiles.
          Call_Get (fileSpecOf (RepoURI repo) (CommitID fi) (Path fi))
            \<in> set (calls (snd (PullCmd_Execute env g c (start w))))))
   \<and> (\<not> PushList d \<longrightarrow> fst (Push_setup env g (start w)) = Inr (repo', repoStore', localFiles) \<longrightarrow>
    mset (completion env localFiles) = mset localFiles \<longrightarrow>
      fst (PushCmd_Execute env g d (start w)) =
        Return (first_error (results (push_batch env g (start w))))
    \<and> (fst (PushCmd_Execute env g d (start w)) = Return None \<longleftrightarrow>
         (\<forall>r \<in> set (results (push_batch env g (start w))). r = None))
    \<and> (\<forall>(fi, s, r) \<in> set (push_batch env g (start w)).
          r = fst (uploadFile env g repoStore' fi (RepoURI repo') s))
    \<and> mset (map fst (push_batch env g (start w))) = mset localFiles
    \<and> (\<forall>fi \<in> set localFiles.
          Call_Stat (FilePath env repoStore' (CommitID fi) (Path fi))
            \<in> set (calls (snd (PushCmd_Execute env g d (start w))))))"
proof (intro conjI impI)
  assume a: "\<not> List c" "fst (Pull_setup env g (start w)) = Inr (repo, repoStore, remoteFiles)"
    "mset (completion env remoteFiles) = mset remoteFiles"
  from a(2) have ok: "\<not> isl (fst (Pull_setup env g (start w)))" by simp
  show r: "fst (PullCmd_Execute env g c (start w)) =
        Return (first_error (results (pull_batch env g (start w))))"
    using a(1) ok by (rule Pull_batch_result)
  show "fst (PullCmd_Execute env g c (start w)) = Return None \<longleftrightarrow>
         (\<forall>r \<in> set (results (pull_batch env g (start w))). r = None)"
    by (simp add: r first_error_None)
  show "\<forall>(fi, s, r) \<in> set (pull_batch env g (start w)).
          r = fst (fetchFile env g repoStore (RepoURI repo) fi s)"
    using a(2) by (rule Pull_batch_runs(2))
  show "mset (map fst (pull_batch env g (start w))) = mset remoteFiles"
    using a(3) by (simp add: Pull_batch_runs(1) [OF a(2)])
  from a(3) have "set (completion env remoteFiles) = set remoteFiles" by (rule mset_eq_setD)
  with Pull_batch_calls [OF a(1,2)]
  show "\<forall>fi \<in> set remoteFiles.
          Call_Get (fileSpecOf (RepoURI repo) (CommitID fi) (Path fi))
            \<in> set (calls (snd (PullCmd_Execute env g c (start w))))"
    by simp
next
  assume a: "\<not> PushList d" "fst (Push_setup env g (start w)) = Inr (repo', repoStore', localFiles)"
    "mset (completion env localFiles) = mset localFiles"
  from a(2) have ok: "\<not> isl (fst (Push_setup env g (start w)))" by simp
  show r: "fst (PushCmd_Execute env g d (start w)) =
        Return (first_error (results (push_batch env g (start w))))"
    using a(1) ok by (rule Push_batch_result)
  show "fst (PushCmd_Execute env g d (start w)) = Return None \<longleftrightarrow>
         (\<forall>r \<in> set (results (push_batch env g (start w))). r = None)"
    by (simp add: r first_error_None)
  show "\<forall>(fi, s, r) \<in> set (push_batch env g (start w)).
          r = fst (uploadFile env g repoStore' fi (RepoURI repo') s)"
    using a(2) by (rule Push_batch_runs(2))
  show "mset (map fst (push_batch env g (start w))) = mset localFiles"
    using a(3) by (simp add: Push_batch_runs(1) [OF a(2)])
  from a(3) have "set (completion env localFiles) = set localFiles" by (rule mset_eq_setD)
  with Push_batch_calls [OF a(1,2)]
  show "\<forall>fi \<in> set localFiles.
          Call_Stat (FilePath env repoStore' (CommitID fi) (Path fi))
            \<in> set (calls (snd (PushCmd_Execute env g d (start w))))"
    by simp
qed

text \<open>A pull where both tasks fail, completing in the order of the listing and in the
  reverse order; a pull where the first task fails and the second still stores its
  file; a push where no task fails.\<close>

theorem batch_fails_with_first_error_witness:
  "fst (Pull_setup (c_env id) quiet (start world_two_faults)) = Inr (repo1, store1, [file_A, file_B])
   \<and> results (pull_batch (c_env id) quiet (start world_two_faults)) =
       [Some (Error ''disk full''), Some (Error ''timeout'')]
   \<and> fst (PullCmd_Execute (c_env id) quiet \<lparr>List = False, URLs = False\<rparr> (start world_two_faults)) =
       Return (Some (Error ''disk full''))
   \<and> results (pull_batch (c_env rev) quiet (start world_two_faults)) =
       [Some (Error ''timeout''), Some (Error ''disk full'')]
   \<and> fst (PullCmd_Execute (c_env rev) quiet \<lparr>List = False, URLs = False\<rparr> (start world_two_faults)) =
       Return (Some (Error ''timeout''))
   \<and> results (pull_batch (c_env id) quiet (start world_disk_full)) = [Some (Error ''disk full''), None]
   \<and> fst (PullCmd_Execute (c_env id) quiet \<lparr>List = False, URLs = False\<rparr> (start world_disk_full)) =
       Return (Some (Error ''disk full''))
   \<and> map_of (local_files (world (snd (PullCmd_Execute (c_env id) quiet \<lparr>List = False, URLs = False\<rparr>
        (start world_disk_full))))) ''c1/B'' = Some []
   \<and> fst (Push_setup (c_env id) quiet (start world_local)) = Inr (repo1, store1, [file_A, file_B])
   \<and> results (push_batch (c_env id) quiet (start world_local)) = [None, None]
   \<and> fst (PushCmd_Execute (c_env id) quiet \<lparr>PushList = False\<rparr> (start world_local)) = Return None"
proof -
  let ?c = "\<lparr>List = False, URLs = False\<rparr>" and ?d = "\<lparr>PushList = False\<rparr>"
  have n: "\<not> List ?c" "\<not> PushList ?d" by simp_all
  have a: "fst (Pull_setup (c_env id) quiet (start world_two_faults)) =
             Inr (repo1, store1, [file_A, file_B])"
    "fst (Pull_setup (c_env rev) quiet (start world_two_faults)) =
             Inr (repo1, store1, [file_A, file_B])"
    "fst (Pull_setup (c_env id) quiet (start world_disk_full)) =
             Inr (repo1, store1, [file_A, file_B])"
    "fst (Push_setup (c_env id) quiet (start world_local)) = Inr (repo1, store1, [file_A, file_B])"
    by (simp_all add: m_defs c_defs w_defs)
  have p: "mset (completion (c_env id) [file_A, file_B]) = mset [file_A, file_B]"
    "mset (completion (c_env rev) [file_A, file_B]) = mset [file_A, file_B]"
    by (simp_all add: c_env_def)
  have r: "results (pull_batch (c_env id) quiet (start world_two_faults)) =
       [Some (Error ''disk full''), Some (Error ''timeout'')]"
    "results (pull_batch (c_env rev) quiet (start world_two_faults)) =
       [Some (Error ''timeout''), Some (Error ''disk full'')]"
    "results (pull_batch (c_env id) quiet (start world_disk_full)) = [Some (Error ''disk full''), None]"
    "results (push_batch (c_env id) quiet (start world_local)) = [None, None]"
    by (simp_all add: results_def m_defs c_defs w_defs)
  have l: "map_of (local_files (world (snd (PullCmd_Execute (c_env id) quiet ?c
        (start world_disk_full))))) ''c1/B'' = Some []"
    by (simp add: PullCmd_Execute_def m_defs c_defs w_defs)
  from batch_fails_with_first_error [of ?c "c_env id" quiet world_two_faults repo1 store1
         "[file_A, file_B]" ?d]
    batch_fails_with_first_error [of ?c "c_env rev" quiet world_two_faults repo1 store1
         "[file_A, file_B]" ?d]
    batch_fails_with_first_error [of ?c "c_env id" quiet world_disk_full repo1 store1
         "[file_A, file_B]" ?d]
    batch_fails_with_first_error [of ?c "c_env id" quiet world_local _ _ _ ?d repo1 store1
         "[file_A, file_B]"]
    n a p r l
  show ?thesis by simp
qed

section \<open>The address of a transfer\<close>

text \<open>
  C10. Every call a download or an upload task makes is addressed by the commit of its
  own record: the concrete path is \<^verbatim>\<open>FilePath\<close> of the record's commit and path, and the
  file spec carries the record's commit as \<^verbatim>\<open>Rev\<close> and \<^verbatim>\<open>CommitID\<close>. In a run, every call
  of a task is one of those of a listed record, so a record of another commit than the
  repository's is transferred under its own commit.
\<close>

theorem tasks_address_by_record_commit:
  "(\<exists>cs. calls (snd (fetchFile env g repoStore repoURI fi s)) = calls s @ cs
        \<and> set cs \<subseteq> fetch_calls env repoStore repoURI fi
        \<and> Call_Get \<lparr>RepoRev = \<lparr>RepoSpec = \<lparr>URI = repoURI\<rparr>, Rev = CommitID fi,
                               RevCommitID = CommitID fi\<rparr>,
                     SpecPath = Path fi\<rparr> \<in> set cs)
   \<and> (\<exists>cs. calls (snd (uploadFile env g repoStore fi repoURI s)) = calls s @ cs
        \<and> set cs \<subseteq> upload_calls env repoStore repoURI fi
        \<and> Call_Stat (FilePath env repoStore (CommitID fi) (Path fi)) \<in> set cs)
   \<and> (\<not> List c \<longrightarrow> fst (Pull_setup env g (start w)) = Inr (repo, repoStore, remoteFiles) \<longrightarrow>
      mset (completion env remoteFiles) = mset remoteFiles \<longrightarrow>
        (\<forall>fi \<in> set remoteFiles.
           Call_Get \<lparr>RepoRev = \<lparr>RepoSpec = \<lparr>URI = RepoURI repo\<rparr>, Rev = CommitID fi,
                                 RevCommitID = CommitID fi\<rparr>,
                       SpecPath = Path fi\<rparr>
             \<in> set (calls (snd (PullCmd_Execute env g c (start w)))))
      \<and> (\<forall>x \<in> set (calls (snd (PullCmd_Execute env g c (start w)))).
           is_transfer x \<longrightarrow>
           x \<in> (\<Union>fi \<in> set remoteFiles. fetch_calls env repoStore (RepoURI repo) fi)))
   \<and> (\<not> PushList d \<longrightarrow> fst (Push_setup env g (start w)) = Inr (repo, repoStore, localFiles) \<longrightarrow>
      mset (completion env localFiles) = mset localFiles \<longrightarrow>
        (\<forall>fi \<in> set localFiles.
           Call_Stat (FilePath env repoStore (CommitID fi) (Path fi))
             \<in> set (calls (snd (PushCmd_Execute env g d (start w)))))
      \<and> (\<forall>x \<in> set (calls (snd (PushCmd_Execute env g d (start w)))).
           is_transfer x \<longrightarrow>
           x \<in> (\<Union>fi \<in> set localFiles. upload_calls env repoStore (RepoURI repo) fi)))"
proof (intro conjI impI)
  from fetchFile_calls [of env g repoStore repoURI fi s]
  show "\<exists>cs. calls (snd (fetchFile env g repoStore repoURI fi s)) = calls s @ cs
        \<and> set cs \<subseteq> fetch_calls env repoStore repoURI fi
        \<and> Call_Get \<lparr>RepoRev = \<lparr>RepoSpec = \<lparr>URI = repoURI\<rparr>, Rev = CommitID fi,
                               RevCommitID = CommitID fi\<rparr>,
                     SpecPath = Path fi\<rparr> \<in> set cs"
    by (auto simp: fileSpecOf_def fetch_calls_def Let_def)
next
  from uploadFile_calls [of env g repoStore fi repoURI s]
  show "\<exists>cs. calls (snd (uploadFile env g repoStore fi repoURI s)) = calls s @ cs
        \<and> set cs \<subseteq> upload_calls env repoStore repoURI fi
        \<and> Call_Stat (FilePath env repoStore (CommitID fi) (Path fi)) \<in> set cs"
    by (auto simp: upload_calls_def Let_def)
next
  assume a: "\<not> List c" "fst (Pull_setup env g (start w)) = Inr (repo, repoStore, remoteFiles)"
    "mset (completion env remoteFiles) = mset remoteFiles"
  from a(3) have eq: "set (completion env remoteFiles) = set remoteFiles" by (rule mset_eq_setD)
  from Pull_batch_calls [OF a(1,2)] eq
  show "\<forall>fi \<in> set remoteFiles.
           Call_Get \<lparr>RepoRev = \<lparr>RepoSpec = \<lparr>URI = RepoURI repo\<rparr>, Rev = CommitID fi,
                                 RevCommitID = CommitID fi\<rparr>,
                       SpecPath = Path fi\<rparr>
             \<in> set (calls (snd (PullCmd_Execute env g c (start w))))"
    and "\<forall>x \<in> set (calls (snd (PullCmd_Execute env g c (start w)))).
           is_transfer x \<longrightarrow>
           x \<in> (\<Union>fi \<in> set remoteFiles. fetch_calls env repoStore (RepoURI repo) fi)"
    by (simp_all add: fileSpecOf_def)
next
  assume a: "\<not> PushList d" "fst (Push_setup env g (start w)) = Inr (repo, repoStore, localFiles)"
    "mset (completion env localFiles) = mset localFiles"
  from a(3) have eq: "set (completion env localFiles) = set localFiles" by (rule mset_eq_setD)
  from Push_batch_calls [OF a(1,2)] eq
  show "\<forall>fi \<in> set localFiles.
           Call_Stat (FilePath env repoStore (CommitID fi) (Path fi))
             \<in> set (calls (snd (PushCmd_Execute env g d (start w))))"
    and "\<forall>x \<in> set (calls (snd (PushCmd_Execute env g d (start w)))).
           is_transfer x \<longrightarrow>
           x \<in> (\<Union>fi \<in> set localFiles. upload_calls env repoStore (RepoURI repo) fi)"
    by simp_all
qed

text \<open>The repository is at \<^verbatim>\<open>c1\<close> and the one record is of \<^verbatim>\<open>c2\<close>: pull fetches and stores it
  under \<^verbatim>\<open>c2\<close>, push reads and uploads it under \<^verbatim>\<open>c2\<close>.\<close>

theorem tasks_address_by_record_commit_witness:
  "RepoCommitID repo1 = ''c1'' \<and> CommitID file_other = ''c2''
   \<and> fst (Pull_setup (listing_env [file_other]) quiet (start world_other_commit)) =
       Inr (repo1, store1, [file_other])
   \<and> calls (snd (PullCmd_Execute (listing_env [file_other]) quiet \<lparr>List = False, URLs = False\<rparr>
        (start world_other_commit))) =
       [Call_OpenRepo, Call_List (rev_spec repo1), Call_NewRepositoryStore ''/src/app'', Call_NewRun 8,
        Call_Get (fileSpecOf ''github.com/a/b'' ''c2'' ''A''), Call_MkdirAll ''c2'', Call_Create ''c2/A'',
        Call_Copy (CreatedFile ''c2/A'') (RemoteFile (fileSpecOf ''github.com/a/b'' ''c2'' ''A'')),
        Call_Close (CreatedFile ''c2/A''),
        Call_Close (RemoteFile (fileSpecOf ''github.com/a/b'' ''c2'' ''A''))]
   \<and> local_files (world (snd (PullCmd_Execute (listing_env [file_other]) quiet
        \<lparr>List = False, URLs = False\<rparr> (start world_other_commit)))) = [(''c2/A'', ''yy'')]
   \<and> fst (Push_setup (c_env id) quiet (start world_other_commit)) = Inr (repo1, store1, [file_other])
   \<and> calls (snd (PushCmd_Execute (c_env id) quiet \<lparr>PushList = False\<rparr> (start world_other_commit))) =
       [Call_OpenRepo, Call_NewRepositoryStore ''/src/app'', Call_AllDataFiles, Call_NewRun 8,
        Call_Stat ''c2/A'', Call_Open ''c2/A'',
        Call_Upload (fileSpecOf ''github.com/a/b'' ''c2'' ''A'') (OpenedFile ''c2/A'')]
   \<and> remote_files (world (snd (PushCmd_Execute (c_env id) quiet \<lparr>PushList = False\<rparr>
        (start world_other_commit)))) = [(fileSpecOf ''github.com/a/b'' ''c2'' ''A'', ''zz'')]"
proof -
  let ?c = "\<lparr>List = False, URLs = False\<rparr>" and ?d = "\<lparr>PushList = False\<rparr>"
  have n: "\<not> List ?c" "\<not> PushList ?d" "RepoCommitID repo1 = ''c1''" "CommitID file_other = ''c2''"
    by (simp_all add: w_defs)
  have a: "fst (Pull_setup (listing_env [file_other]) quiet (start world_other_commit)) =
       Inr (repo1, store1, [file_other])"
    "fst (Push_setup (c_env id) quiet (start world_other_commit)) = Inr (repo1, store1, [file_other])"
    by (simp_all add: m_defs c_defs w_defs)
  have p: "mset (completion (listing_env [file_other]) [file_other]) = mset [file_other]"
    "mset (completion (c_env id) [file_other]) = mset [file_other]"
    by (simp_all add: c_env_def listing_env_def)
  have e: "calls (snd (PullCmd_Execute (listing_env [file_other]) quiet ?c
        (start world_other_commit))) =
       [Call_OpenRepo, Call_List (rev_spec repo1), Call_NewRepositoryStore ''/src/app'', Call_NewRun 8,
        Call_Get (fileSpecOf ''github.com/a/b'' ''c2'' ''A''), Call_MkdirAll ''c2'', Call_Create ''c2/A'',
        Call_Copy (CreatedFile ''c2/A'') (RemoteFile (fileSpecOf ''github.com/a/b'' ''c2'' ''A'')),
        Call_Close (CreatedFile ''c2/A''),
        Call_Close (RemoteFile (fileSpecOf ''github.com/a/b'' ''c2'' ''A''))]"
    "local_files (world (snd (PullCmd_Execute (listing_env [file_other]) quiet
        ?c (start world_other_commit)))) = [(''c2/A'', ''yy'')]"
    by (simp_all add: PullCmd_Execute_def m_defs c_defs w_defs)
  have f: "calls (snd (PushCmd_Execute (c_env id) quiet ?d (start world_other_commit))) =
       [Call_OpenRepo, Call_NewRepositoryStore ''/src/app'', Call_AllDataFiles, Call_NewRun 8,
        Call_Stat ''c2/A'', Call_Open ''c2/A'',
        Call_Upload (fileSpecOf ''github.com/a/b'' ''c2'' ''A'') (OpenedFile ''c2/A'')]"
    "remote_files (world (snd (PushCmd_Execute (c_env id) quiet ?d
        (start world_other_commit)))) = [(fileSpecOf ''github.com/a/b'' ''c2'' ''A'', ''zz'')]"
    by (simp_all add: PushCmd_Execute_def m_defs c_defs w_defs)
  from tasks_address_by_record_commit [of "listing_env [file_other]" quiet store1 _ _ _ ?c
         world_other_commit repo1 "[file_other]" ?d]
    tasks_address_by_record_commit [of "c_env id" quiet store1 _ _ _ ?c
         world_other_commit repo1 _ ?d "[file_other]"]
    n a p e f
  show ?thesis by simp
qed

section \<open>Streams\<close>

text \<open>A download closes what it opens, on every return: the remote stream and the created
  file are both gone from the open streams when \<^verbatim>\<open>fetchFile\<close> returns.\<close>

lemma fetchFile_releases_streams:
  "opened (snd (fetchFile env g repoStore repoURI fi s)) = opened s"
  by (auto simp: fetchFile_def call_Get_def call_MkdirAll_def call_Create_def call_Copy_def
      call_Close_def open_result_def deferred_def Let_def
      split: prod.splits sum.splits option.splits)

text \<open>An upload makes no \<^verbatim>\<open>Close\<close> call at all, so the file it opens stays open whether the
  upload then fails or succeeds.\<close>

lemma uploadFile_never_closes:
  "Call_Close h \<in> set (calls (snd (uploadFile env g repoStore file repoURI s))) \<longleftrightarrow>
   Call_Close h \<in> set (calls s)"
  by (auto simp: uploadFile_def call_Stat_def call_Open_def call_Upload_def open_result_def Let_def
      split: prod.splits sum.splits option.splits)

lemma uploadFile_keeps_file_open:
  assumes "fst (Stat env repoStore (FilePath env repoStore (CommitID file) (Path file)) (world s)) =
             Inr fi"
      and "IsRegular fi"
      and "fst (Open env repoStore (FilePath env repoStore (CommitID file) (Path file))
             (snd (Stat env repoStore (FilePath env repoStore (CommitID file) (Path file))
                (world s)))) = None"
  shows "opened (snd (uploadFile env g repoStore file repoURI s)) =
           OpenedFile (FilePath env repoStore (CommitID file) (Path file)) # opened s"
  using assms
  by (auto simp: uploadFile_def call_Stat_def call_Open_def call_Upload_def open_result_def Let_def
      split: prod.splits sum.splits option.splits)

text \<open>
  C8 asks that every stream a task opens is closed on every exit path. The upload of
  the regular file \<^verbatim>\<open>c1/A\<close> returns nil having called \<^verbatim>\<open>Stat\<close>, \<^verbatim>\<open>Open\<close> and \<^verbatim>\<open>Upload\<close> and
  nothing else, with the opened file still open; after a push of two files both are
  still open; the download of the same file leaves no stream open.
\<close>

theorem uploadFile_leaves_file_open:
  "uploadFile (c_env id) quiet store1 file_A ''github.com/a/b'' (start world_local) =
     (None,
      \<lparr>world = world_local\<lparr>remote_files :=
                 [(fileSpecOf ''github.com/a/b'' ''c1'' ''A'', ''0123456789'')]\<rparr>,
       calls = [Call_Stat ''c1/A'', Call_Open ''c1/A'',
                Call_Upload (fileSpecOf ''github.com/a/b'' ''c1'' ''A'') (OpenedFile ''c1/A'')],
       opened = [OpenedFile ''c1/A''], logs = [], stdout = []\<rparr>)
   \<and> opened (snd (PushCmd_Execute (c_env id) quiet \<lparr>PushList = False\<rparr> (start world_local))) =
       [OpenedFile ''c1/B'', OpenedFile ''c1/A'']
   \<and> opened (snd (fetchFile (c_env id) quiet store1 ''github.com/a/b'' file_A
        (start world_remote))) = []"
  by (simp add: PushCmd_Execute_def called_def start_def m_defs c_defs w_defs)

section \<open>The example store: push and pull\<close>

text \<open>What one task, and then one batch, does to the two stores when no fault is
  injected.\<close>

lemma c_env_simps [simp]:
  "OpenRepo (c_env order) = c_OpenRepo"
  "BuildData_List (c_env order) = c_List"
  "NewRepositoryStore (c_env order) = c_NewRepositoryStore"
  "FilePath (c_env order) = c_FilePath"
  "AllDataFiles (c_env order) = c_AllDataFiles"
  "BuildData_Get (c_env order) = c_Get"
  "Dir (c_env order) = c_Dir"
  "MkdirAll (c_env order) = c_MkdirAll"
  "Create (c_env order) = c_Create"
  "Copy (c_env order) = c_Copy"
  "Close (c_env order) = c_Close"
  "Stat (c_env order) = c_Stat"
  "Open (c_env order) = c_Open"
  "BuildData_Upload (c_env order) = c_Upload"
  "completion (c_env order) = order"
  by (simp_all add: c_env_def)

lemma c_uploadFile:
  assumes "faults (world s) = []"
      and "map_of (local_files (world s)) (c_FilePath st (CommitID f) (Path f)) = Some b"
  shows "fst (uploadFile (c_env order) g st f uri s) = None"
    and "world (snd (uploadFile (c_env order) g st f uri s)) =
           (world s)\<lparr>remote_files :=
              AList.update (fileSpecOf uri (CommitID f) (Path f)) b (remote_files (world s))\<rparr>"
  using assms
  by (simp_all add: uploadFile_def call_Stat_def call_Open_def call_Upload_def open_result_def
      c_Stat_def c_Open_def c_Upload_def fault_def Let_def)

lemma c_uploadFile_skip:
  assumes "faults (world s) = []"
      and "map_of (local_files (world s)) (c_FilePath st (CommitID f) (Path f)) = None"
  shows "fst (uploadFile (c_env order) g st f uri s) = None"
    and "world (snd (uploadFile (c_env order) g st f uri s)) = world s"
  using assms
  by (simp_all add: uploadFile_def call_Stat_def call_Open_def call_Upload_def open_result_def
      c_Stat_def c_Open_def c_Upload_def fault_def Let_def)

lemma c_fetchFile:
  assumes "faults (world s) = []"
      and "map_of (remote_files (world s)) (fileSpecOf uri (CommitID f) (Path f)) = Some b"
      and "c_Dir (c_FilePath st (CommitID f) (Path f)) \<notin> fst ` set (local_files (world s))"
      and "c_FilePath st (CommitID f) (Path f) \<notin> set (local_dirs (world s))"
      and "c_FilePath st (CommitID f) (Path f) \<noteq> c_Dir (c_FilePath st (CommitID f) (Path f))"
  shows "fst (fetchFile (c_env order) g st uri f s) = None"
    and "world (snd (fetchFile (c_env order) g st uri f s)) =
           (world s)\<lparr>local_dirs := List.insert (c_Dir (c_FilePath st (CommitID f) (Path f)))
                                     (local_dirs (world s)),
                     local_files := AList.update (c_FilePath st (CommitID f) (Path f)) b
                        (AList.update (c_FilePath st (CommitID f) (Path f)) []
                           (local_files (world s)))\<rparr>"
  using assms
  by (simp_all add: fetchFile_def call_Get_def call_MkdirAll_def call_Create_def call_Copy_def
      call_Close_def open_result_def deferred_def c_Get_def c_MkdirAll_def c_Create_def c_Copy_def
      c_Close_def fault_def Let_def)

lemma Do_None:
  "fst (task s) = None \<Longrightarrow> Do par task s = (par, snd (task s))"
  by (cases "task s") (simp add: Do_def)

lemma push_loop:
  assumes "faults (world s) = []"
      and "\<forall>f \<in> set fs. map_of (local_files (world s)) (c_FilePath st (CommitID f) (Path f)) =
             Some (V (fileSpecOf uri (CommitID f) (Path f)))"
  shows "fst (range_Do par (\<lambda>f. uploadFile (c_env order) g st f uri) fs s) = par
       \<and> (\<exists>r. world (snd (range_Do par (\<lambda>f. uploadFile (c_env order) g st f uri) fs s)) =
                 (world s)\<lparr>remote_files := r\<rparr>
              \<and> (\<forall>x. map_of r x =
                    (if x \<in> (\<lambda>f. fileSpecOf uri (CommitID f) (Path f)) ` set fs then Some (V x)
                     else map_of (remote_files (world s)) x)))"
  using assms
proof (induction fs arbitrary: s)
  case Nil
  show ?case by (auto intro: exI [of _ "remote_files (world s)"])
next
  case (Cons f fs)
  let ?task = "\<lambda>f. uploadFile (c_env order) g st f uri"
  let ?s' = "snd (?task f s)"
  let ?k = "fileSpecOf uri (CommitID f) (Path f)"
  from Cons.prems have here:
    "map_of (local_files (world s)) (c_FilePath st (CommitID f) (Path f)) = Some (V ?k)"
    by simp
  have r: "fst (?task f s) = None"
    and w: "world ?s' = (world s)\<lparr>remote_files := AList.update ?k (V ?k) (remote_files (world s))\<rparr>"
    using c_uploadFile [OF Cons.prems(1) here] by simp_all
  have step: "range_Do par ?task (f # fs) s = range_Do par ?task fs ?s'"
    using Do_None [of "?task f" s par] r by simp
  have p1: "faults (world ?s') = []" using Cons.prems(1) by (simp add: w)
  have p2: "\<forall>f \<in> set fs. map_of (local_files (world ?s')) (c_FilePath st (CommitID f) (Path f)) =
             Some (V (fileSpecOf uri (CommitID f) (Path f)))"
    using Cons.prems(2) by (simp add: w)
  from Cons.IH [OF p1 p2] obtain r' where
    ih: "fst (range_Do par ?task fs ?s') = par"
      "world (snd (range_Do par ?task fs ?s')) = (world ?s')\<lparr>remote_files := r'\<rparr>"
      "\<forall>x. map_of r' x =
         (if x \<in> (\<lambda>f. fileSpecOf uri (CommitID f) (Path f)) ` set fs then Some (V x)
          else map_of (remote_files (world ?s')) x)"
    by blast
  show ?case
    unfolding step using ih
    by (intro conjI exI [of _ r']) (auto simp: w update_conv')
qed

lemma pull_loop:
  assumes "faults (world s) = []"
      and "\<forall>f \<in> set fs.
             map_of (remote_files (world s)) (fileSpecOf uri (CommitID f) (Path f)) =
               Some (V (c_FilePath st (CommitID f) (Path f)))
             \<and> c_FilePath st (CommitID f) (Path f) \<in> K"
      and "fst ` set (local_files (world s)) \<subseteq> K"
      and "set (local_dirs (world s)) \<subseteq> c_Dir ` K"
      and "K \<inter> c_Dir ` K = {}"
  shows "fst (range_Do par (fetchFile (c_env order) g st uri) fs s) = par
       \<and> (\<exists>ld lf. world (snd (range_Do par (fetchFile (c_env order) g st uri) fs s)) =
                 (world s)\<lparr>local_dirs := ld, local_files := lf\<rparr>
              \<and> (\<forall>q. map_of lf q =
                    (if q \<in> (\<lambda>f. c_FilePath st (CommitID f) (Path f)) ` set fs then Some (V q)
                     else map_of (local_files (world s)) q)))"
  using assms(1-4)
proof (induction fs arbitrary: s)
  case Nil
  show ?case
    by (auto intro!: exI [of _ "local_dirs (world s)"] exI [of _ "local_files (world s)"])
next
  case (Cons f fs)
  let ?task = "fetchFile (c_env order) g st uri"
  let ?s' = "snd (?task f s)"
  let ?p = "c_FilePath st (CommitID f) (Path f)"
  from Cons.prems(2) have here:
    "map_of (remote_files (world s)) (fileSpecOf uri (CommitID f) (Path f)) = Some (V ?p)"
    and inK: "?p \<in> K"
    by simp_all
  from inK assms(5) have notdir: "?p \<notin> c_Dir ` K" and dirout: "c_Dir ?p \<notin> K"
    by auto
  have c1: "c_Dir ?p \<notin> fst ` set (local_files (world s))"
    using dirout Cons.prems(3) by auto
  have c2: "?p \<notin> set (local_dirs (world s))"
    using notdir Cons.prems(4) by auto
  have c3: "?p \<noteq> c_Dir ?p"
    using inK dirout by auto
  have r: "fst (?task f s) = None"
    and w: "world ?s' =
           (world s)\<lparr>local_dirs := List.insert (c_Dir ?p) (local_dirs (world s)),
                     local_files := AList.update ?p (V ?p) (AList.update ?p [] (local_files (world s)))\<rparr>"
    using c_fetchFile [OF Cons.prems(1) here c1 c2 c3] by simp_all
  have step: "range_Do par ?task (f # fs) s = range_Do par ?task fs ?s'"
    using Do_None [of "?task f" s par] r by simp
  have p1: "faults (world ?s') = []" using Cons.prems(1) by (simp add: w)
  have p2: "\<forall>f \<in> set fs.
             map_of (remote_files (world ?s')) (fileSpecOf uri (CommitID f) (Path f)) =
               Some (V (c_FilePath st (CommitID f) (Path f)))
             \<and> c_FilePath st (CommitID f) (Path f) \<in> K"
    using Cons.prems(2) by (simp add: w)
  have p3: "fst ` set (local_files (world ?s')) \<subseteq> K"
    using Cons.prems(3) inK by (auto simp: w dom_update)
  have p4: "set (local_dirs (world ?s')) \<subseteq> c_Dir ` K"
    using Cons.prems(4) inK by (auto simp: w)
  from Cons.IH [OF p1 p2 p3 p4] obtain ld lf where
    ih: "fst (range_Do par ?task fs ?s') = par"
      "world (snd (range_Do par ?task fs ?s')) = (world ?s')\<lparr>local_dirs := ld, local_files := lf\<rparr>"
      "\<forall>q. map_of lf q =
         (if q \<in> (\<lambda>f. c_FilePath st (CommitID f) (Path f)) ` set fs then Some (V q)
          else map_of (local_files (world ?s')) q)"
    by blast
  show ?case
    unfolding step using ih
    by (intro conjI exI [of _ ld] exI [of _ lf]) (auto simp: w update_conv')
qed

lemma split_join:
  assumes "CHR ''/'' \<in> set q"
  shows "takeWhile not_slash q @ CHR ''/'' # tl (dropWhile not_slash q) = q"
proof -
  from assms have ne: "dropWhile not_slash q \<noteq> []"
    by (auto simp: dropWhile_eq_Nil_conv not_slash_def)
  then have "hd (dropWhile not_slash q) = CHR ''/''"
    using hd_dropWhile [of not_slash q] by (simp add: not_slash_def)
  with ne have "dropWhile not_slash q = CHR ''/'' # tl (dropWhile not_slash q)"
    by (cases "dropWhile not_slash q") simp_all
  then have "takeWhile not_slash q @ CHR ''/'' # tl (dropWhile not_slash q) =
      takeWhile not_slash q @ dropWhile not_slash q" by simp
  then show ?thesis by simp
qed

lemma join_split:
  assumes "CHR ''/'' \<notin> set c"
  shows "takeWhile not_slash (c @ CHR ''/'' # p) = c"
    and "tl (dropWhile not_slash (c @ CHR ''/'' # p)) = p"
proof -
  from assms have all: "\<forall>x \<in> set c. not_slash x" by (auto simp: not_slash_def)
  then show "takeWhile not_slash (c @ CHR ''/'' # p) = c"
    by (simp add: takeWhile_append2 not_slash_def)
  from all show "tl (dropWhile not_slash (c @ CHR ''/'' # p)) = p"
    by (simp add: dropWhile_append2 not_slash_def)
qed

lemma c_Push_setup:
  assumes "faults w = []"
  shows "fst (Push_setup (c_env order) g (start w)) =
           Inr (repository w, RepositoryStore (RootDir (repository w)),
                map local_record (filter (\<lambda>e. CHR ''/'' \<in> set (fst e)) (local_files w)))"
    and "world (snd (Push_setup (c_env order) g (start w))) = w"
  using assms
  by (simp_all add: Push_setup_def call_OpenRepo_def call_NewRepositoryStore_def
      call_AllDataFiles_def c_OpenRepo_def c_NewRepositoryStore_def c_AllDataFiles_def fault_def)

lemma c_Pull_setup:
  assumes "faults w = []"
  shows "world (snd (Pull_setup (c_env order) g (start w))) = w"
    and "map remote_record (filter (\<lambda>e. RepoRev (fst e) = rev_spec (repository w)) (remote_files w)) = []
         \<Longrightarrow> fst (Pull_setup (c_env order) g (start w)) = Inl (Return None)"
    and "map remote_record (filter (\<lambda>e. RepoRev (fst e) = rev_spec (repository w)) (remote_files w)) \<noteq> []
         \<Longrightarrow> fst (Pull_setup (c_env order) g (start w)) =
               Inr (repository w, RepositoryStore (RootDir (repository w)),
                    map remote_record
                      (filter (\<lambda>e. RepoRev (fst e) = rev_spec (repository w)) (remote_files w)))"
  using assms
  by (simp_all add: Pull_setup_def Pull_listing_def call_OpenRepo_def call_NewRepositoryStore_def
      call_List_def c_OpenRepo_def c_NewRepositoryStore_def c_List_def fault_def is_NotFound_def
      StatusNotFound_def Let_def)

lemma Push_transfer_run:
  assumes "\<not> PushList d" and "fst (Push_setup env g s0) = Inr (repo, repoStore, localFiles)"
  shows "PushCmd_Execute env g d s0 =
     (Return (Wait (fst (range_Do (NewRun 8) (\<lambda>file. uploadFile env g repoStore file (RepoURI repo))
                         (completion env localFiles) (snd (call_NewRun 8 (snd (Push_setup env g s0))))))),
      snd (range_Do (NewRun 8) (\<lambda>file. uploadFile env g repoStore file (RepoURI repo))
             (completion env localFiles) (snd (call_NewRun 8 (snd (Push_setup env g s0))))))"
  using assms by (cases "Push_setup env g s0") (simp add: Push_transfer_mode Wait_range_Do)

lemma Pull_transfer_run:
  assumes "\<not> List c" and "fst (Pull_setup env g s0) = Inr (repo, repoStore, remoteFiles)"
  shows "PullCmd_Execute env g c s0 =
     (Return (Wait (fst (range_Do (NewRun 8) (fetchFile env g repoStore (RepoURI repo))
                         (completion env remoteFiles) (snd (call_NewRun 8 (snd (Pull_setup env g s0))))))),
      snd (range_Do (NewRun 8) (fetchFile env g repoStore (RepoURI repo))
             (completion env remoteFiles) (snd (call_NewRun 8 (snd (Pull_setup env g s0))))))"
  using assms by (cases "Pull_setup env g s0") (simp add: Pull_transfer_mode Wait_range_Do)

lemma Pull_transfer_abort:
  assumes "\<not> List c" and "fst (Pull_setup env g s0) = Inl out"
  shows "PullCmd_Execute env g c s0 = (out, snd (Pull_setup env g s0))"
  using assms by (cases "Pull_setup env g s0") (simp add: Pull_transfer_mode)

lemma map_of_in_keys: "map_of al k = Some v \<Longrightarrow> k \<in> fst ` set al"
  by (metis map_of_eq_None_iff option.distinct(1))

lemma c_push:
  assumes f0: "faults w0 = []" and r0: "remote_files w0 = []"
      and perm: "\<forall>xs. set (order xs) = set xs"
  shows "fst (PushCmd_Execute (c_env order) g \<lparr>PushList = False\<rparr> (start w0)) = Return None
       \<and> (\<exists>r. world (snd (PushCmd_Execute (c_env order) g \<lparr>PushList = False\<rparr> (start w0))) =
                 w0\<lparr>remote_files := r\<rparr>
              \<and> (\<forall>c p. CHR ''/'' \<notin> set c \<longrightarrow>
                    map_of r (fileSpecOf (RepoURI (repository w0)) c p) =
                    map_of (local_files w0) (c_FilePath st c p)))"
proof -
  let ?L = "local_files w0" and ?uri = "RepoURI (repository w0)"
  let ?st = "RepositoryStore (RootDir (repository w0))"
  let ?recs = "map local_record (filter (\<lambda>e. CHR ''/'' \<in> set (fst e)) ?L)"
  let ?V = "\<lambda>x. the (map_of ?L (RevCommitID (RepoRev x) @ CHR ''/'' # SpecPath x))"
  let ?task = "\<lambda>file. uploadFile (c_env order) g ?st file ?uri"
  let ?s4 = "snd (Push_setup (c_env order) g (start w0))"
  let ?s5 = "snd (call_NewRun 8 ?s4)"
  let ?R = "range_Do (NewRun 8) ?task (order ?recs) ?s5"
  have w5: "world ?s5 = w0"
    by (simp add: call_NewRun_def c_Push_setup(2) [OF f0])
  have ex: "PushCmd_Execute (c_env order) g \<lparr>PushList = False\<rparr> (start w0) =
      (Return (Wait (fst ?R)), snd ?R)"
    using Push_transfer_run [of "\<lparr>PushList = False\<rparr>" "c_env order" g "start w0", OF _ c_Push_setup(1) [OF f0]]
    by simp
  have rec_path: "c_FilePath st' (CommitID f) (Path f) \<in> fst ` set ?L
      \<and> RevCommitID (RepoRev (fileSpecOf ?uri (CommitID f) (Path f))) @ CHR ''/'' #
          SpecPath (fileSpecOf ?uri (CommitID f) (Path f)) = c_FilePath st' (CommitID f) (Path f)"
    if "f \<in> set ?recs" for f st'
  proof -
    from that obtain e where e: "e \<in> set ?L" "CHR ''/'' \<in> set (fst e)" "f = local_record e"
      by auto
    then have "c_FilePath st' (CommitID f) (Path f) = fst e"
      by (simp add: c_FilePath_def local_record_def split_join)
    with e(1) show ?thesis by (auto simp: fileSpecOf_def c_FilePath_def)
  qed
  have pre: "\<forall>f \<in> set (order ?recs).
      map_of (local_files (world ?s5)) (c_FilePath ?st (CommitID f) (Path f)) =
        Some (?V (fileSpecOf ?uri (CommitID f) (Path f)))"
  proof
    fix f assume "f \<in> set (order ?recs)"
    with perm have "f \<in> set ?recs" by simp
    from rec_path [OF this, of ?st]
    have k: "c_FilePath ?st (CommitID f) (Path f) \<in> fst ` set ?L"
      and eq: "RevCommitID (RepoRev (fileSpecOf ?uri (CommitID f) (Path f))) @ CHR ''/'' #
          SpecPath (fileSpecOf ?uri (CommitID f) (Path f)) = c_FilePath ?st (CommitID f) (Path f)"
      by simp_all
    from k obtain b where "map_of ?L (c_FilePath ?st (CommitID f) (Path f)) = Some b"
      by (metis map_of_eq_None_iff not_Some_eq)
    then show "map_of (local_files (world ?s5)) (c_FilePath ?st (CommitID f) (Path f)) =
        Some (?V (fileSpecOf ?uri (CommitID f) (Path f)))"
      by (simp add: w5 eq)
  qed
  have f5: "faults (world ?s5) = []" by (simp add: w5 f0)
  from push_loop [of ?s5 "order ?recs" ?st ?V ?uri "NewRun 8" order g, OF f5 pre]
  obtain r where
    par: "fst ?R = NewRun 8"
    and wr: "world (snd ?R) = (world ?s5)\<lparr>remote_files := r\<rparr>"
    and mr: "\<forall>x. map_of r x =
         (if x \<in> (\<lambda>f. fileSpecOf ?uri (CommitID f) (Path f)) ` set (order ?recs) then Some (?V x)
          else map_of (remote_files (world ?s5)) x)"
    by blast
  have content: "map_of r (fileSpecOf ?uri c p) = map_of ?L (c_FilePath st c p)"
    if c: "CHR ''/'' \<notin> set c" for c p
  proof (cases "c_FilePath st c p \<in> fst ` set ?L")
    case True
    then obtain b where b: "(c @ CHR ''/'' # p, b) \<in> set ?L" by (auto simp: c_FilePath_def)
    then have "local_record (c @ CHR ''/'' # p, b) \<in> set ?recs" by auto
    moreover have "fileSpecOf ?uri (CommitID (local_record (c @ CHR ''/'' # p, b)))
        (Path (local_record (c @ CHR ''/'' # p, b))) = fileSpecOf ?uri c p"
      using join_split [OF c, of p] by (simp add: local_record_def)
    ultimately have "fileSpecOf ?uri c p \<in> (\<lambda>f. fileSpecOf ?uri (CommitID f) (Path f)) ` set (order ?recs)"
      using perm by (metis (no_types, lifting) image_eqI)
    with mr have "map_of r (fileSpecOf ?uri c p) = Some (?V (fileSpecOf ?uri c p))" by simp
    moreover from True obtain v where "map_of ?L (c_FilePath st c p) = Some v"
      by (metis map_of_eq_None_iff not_Some_eq)
    ultimately show ?thesis by (simp add: fileSpecOf_def c_FilePath_def)
  next
    case False
    have "fileSpecOf ?uri c p \<notin> (\<lambda>f. fileSpecOf ?uri (CommitID f) (Path f)) ` set (order ?recs)"
    proof
      assume "fileSpecOf ?uri c p \<in> (\<lambda>f. fileSpecOf ?uri (CommitID f) (Path f)) ` set (order ?recs)"
      then obtain f where f: "f \<in> set ?recs" "fileSpecOf ?uri c p = fileSpecOf ?uri (CommitID f) (Path f)"
        using perm by auto
      from f(2) have "CommitID f = c" "Path f = p" by (simp_all add: fileSpecOf_def)
      with rec_path [OF f(1), of st] False show False by simp
    qed
    with mr have "map_of r (fileSpecOf ?uri c p) = None" by (simp add: w5 r0)
    moreover from False have "map_of ?L (c_FilePath st c p) = None"
      by (simp add: map_of_eq_None_iff)
    ultimately show ?thesis by simp
  qed
  show ?thesis
    unfolding ex using par wr content
    by (auto simp: Wait_def NewRun_def w5 intro!: exI [of _ r])
qed

lemma c_pull:
  assumes f0: "faults w = []" and l0: "local_files w = []" and d0: "local_dirs w = []"
      and perm: "\<forall>xs. set (order xs) = set xs"
      and disj: "fst ` set L \<inter> c_Dir ` fst ` set L = {}"
      and content: "\<forall>p. map_of (remote_files w)
                          (fileSpecOf (RepoURI (repository w)) (RepoCommitID (repository w)) p) =
                        map_of L (c_FilePath st (RepoCommitID (repository w)) p)"
  shows "fst (PullCmd_Execute (c_env order) g \<lparr>List = False, URLs = u\<rparr> (start w)) = Return None
       \<and> (\<forall>p. map_of (local_files (world (snd (PullCmd_Execute (c_env order) g
                    \<lparr>List = False, URLs = u\<rparr> (start w)))))
                 (c_FilePath st (RepoCommitID (repository w)) p) =
               map_of L (c_FilePath st (RepoCommitID (repository w)) p))
       \<and> (\<forall>q. q \<notin> range (c_FilePath st (RepoCommitID (repository w))) \<longrightarrow>
               map_of (local_files (world (snd (PullCmd_Execute (c_env order) g
                    \<lparr>List = False, URLs = u\<rparr> (start w))))) q = None)
       \<and> remote_files (world (snd (PullCmd_Execute (c_env order) g
                    \<lparr>List = False, URLs = u\<rparr> (start w)))) = remote_files w"
proof -
  let ?uri = "RepoURI (repository w)" and ?c = "RepoCommitID (repository w)"
  let ?st = "RepositoryStore (RootDir (repository w))"
  let ?cmd = "\<lparr>List = False, URLs = u\<rparr>"
  let ?files = "map remote_record
                  (filter (\<lambda>e. RepoRev (fst e) = rev_spec (repository w)) (remote_files w))"
  let ?path = "\<lambda>f. c_FilePath st (CommitID f) (Path f)"
  have paths: "c_FilePath st' a b = c_FilePath st a b" for st' a b
    by (simp add: c_FilePath_def)
  have listed: "CommitID f = ?c \<and> map_of L (?path f) \<noteq> None
      \<and> map_of (remote_files w) (fileSpecOf ?uri (CommitID f) (Path f)) = map_of L (?path f)"
    if "f \<in> set ?files" for f
  proof -
    from that obtain e where e: "e \<in> set (remote_files w)" "RepoRev (fst e) = rev_spec (repository w)"
      "f = remote_record e" by auto
    from e(2,3) have cf: "CommitID f = ?c" and sp: "fileSpecOf ?uri ?c (Path f) = fst e"
      by (simp_all add: remote_record_def rev_spec_def fileSpecOf_def)
    from e(1) have "map_of (remote_files w) (fst e) \<noteq> None"
      by (simp add: map_of_eq_None_iff)
    moreover from content have "map_of (remote_files w) (fileSpecOf ?uri ?c (Path f)) =
        map_of L (c_FilePath st ?c (Path f))" by blast
    ultimately show ?thesis using sp cf by simp
  qed
  have unlisted: "map_of L (c_FilePath st ?c p) = None" if "c_FilePath st ?c p \<notin> ?path ` set ?files" for p
  proof (rule ccontr)
    assume "map_of L (c_FilePath st ?c p) \<noteq> None"
    then obtain b where "map_of (remote_files w) (fileSpecOf ?uri ?c p) = Some b"
      using content by auto
    then have "(fileSpecOf ?uri ?c p, b) \<in> set (remote_files w)" by (rule map_of_SomeD)
    moreover have "RepoRev (fileSpecOf ?uri ?c p) = rev_spec (repository w)"
      by (simp add: fileSpecOf_def rev_spec_def)
    ultimately have "remote_record (fileSpecOf ?uri ?c p, b) \<in> set ?files" by force
    moreover have "?path (remote_record (fileSpecOf ?uri ?c p, b)) = c_FilePath st ?c p"
      by (simp add: remote_record_def fileSpecOf_def)
    ultimately have "c_FilePath st ?c p \<in> ?path ` set ?files" by (rule rev_image_eqI [OF _ sym])
    with that show False by contradiction
  qed
  show ?thesis
  proof (cases "?files = []")
    case True
    have "PullCmd_Execute (c_env order) g ?cmd (start w) =
        (Return None, snd (Pull_setup (c_env order) g (start w)))"
      using Pull_transfer_abort [of ?cmd "c_env order" g "start w" "Return None"]
        c_Pull_setup(2) [OF f0 True] by simp
    moreover have "map_of L (c_FilePath st ?c p) = None" for p
      using unlisted [of p] True by simp
    ultimately show ?thesis by (simp add: c_Pull_setup(1) [OF f0] l0)
  next
    case False
    let ?s4 = "snd (Pull_setup (c_env order) g (start w))"
    let ?s5 = "snd (call_NewRun 8 ?s4)"
    let ?task = "fetchFile (c_env order) g ?st ?uri"
    let ?R = "range_Do (NewRun 8) ?task (order ?files) ?s5"
    let ?V = "\<lambda>q. the (map_of L q)"
    have w5: "world ?s5 = w"
      by (simp add: call_NewRun_def c_Pull_setup(1) [OF f0])
    have ex: "PullCmd_Execute (c_env order) g ?cmd (start w) = (Return (Wait (fst ?R)), snd ?R)"
      using Pull_transfer_run [of ?cmd "c_env order" g "start w", OF _ c_Pull_setup(3) [OF f0 False]]
      by simp
    have a1: "faults (world ?s5) = []" by (simp add: w5 f0)
    have a2: "\<forall>f \<in> set (order ?files).
        map_of (remote_files (world ?s5)) (fileSpecOf ?uri (CommitID f) (Path f)) =
          Some (?V (c_FilePath ?st (CommitID f) (Path f)))
        \<and> c_FilePath ?st (CommitID f) (Path f) \<in> fst ` set L"
    proof
      fix f assume "f \<in> set (order ?files)"
      with perm have "f \<in> set ?files" by simp
      from listed [OF this] obtain b where
        b: "map_of L (?path f) = Some b"
          "map_of (remote_files w) (fileSpecOf ?uri (CommitID f) (Path f)) = Some b"
        by auto
      from b(1) have "?path f \<in> fst ` set L" by (rule map_of_in_keys)
      with b show "map_of (remote_files (world ?s5)) (fileSpecOf ?uri (CommitID f) (Path f)) =
          Some (?V (c_FilePath ?st (CommitID f) (Path f)))
        \<and> c_FilePath ?st (CommitID f) (Path f) \<in> fst ` set L"
        by (simp add: w5 paths [of ?st])
    qed
    have a3: "fst ` set (local_files (world ?s5)) \<subseteq> fst ` set L" by (simp add: w5 l0)
    have a4: "set (local_dirs (world ?s5)) \<subseteq> c_Dir ` fst ` set L" by (simp add: w5 d0)
    from pull_loop [of ?s5 "order ?files" ?uri ?V ?st "fst ` set L" "NewRun 8" order g,
        OF a1 a2 a3 a4 disj]
    obtain ld lf where
      par: "fst ?R = NewRun 8"
      and wr: "world (snd ?R) = (world ?s5)\<lparr>local_dirs := ld, local_files := lf\<rparr>"
      and ml: "\<forall>q. map_of lf q =
           (if q \<in> (\<lambda>f. c_FilePath ?st (CommitID f) (Path f)) ` set (order ?files) then Some (?V q)
            else map_of (local_files (world ?s5)) q)"
      by blast
    have same: "(\<lambda>f. c_FilePath ?st (CommitID f) (Path f)) ` set (order ?files) = ?path ` set ?files"
      using perm by (simp add: paths [of ?st])
    have "map_of lf (c_FilePath st ?c p) = map_of L (c_FilePath st ?c p)" for p
    proof (cases "c_FilePath st ?c p \<in> ?path ` set ?files")
      case True
      then obtain f where fin: "f \<in> set ?files" and eq: "c_FilePath st ?c p = ?path f" by auto
      from listed [OF fin] have "map_of L (?path f) \<noteq> None" by blast
      then have "map_of L (c_FilePath st ?c p) \<noteq> None" unfolding eq .
      with True ml same show ?thesis by auto
    next
      case False
      with ml same unlisted [OF False] show ?thesis by (simp add: w5 l0)
    qed
    moreover have "map_of lf q = None" if "q \<notin> range (c_FilePath st ?c)" for q
    proof -
      have "q \<notin> ?path ` set ?files"
      proof
        assume "q \<in> ?path ` set ?files"
        then obtain f where fin: "f \<in> set ?files" and eq: "q = ?path f" by auto
        from listed [OF fin] have "CommitID f = ?c" by blast
        with eq have "q = c_FilePath st ?c (Path f)" by simp
        with that show False by blast
      qed
      with ml same show ?thesis by (simp add: w5 l0)
    qed
    ultimately show ?thesis
      unfolding ex using par wr by (simp add: Wait_def NewRun_def w5)
  qed
qed

text \<open>
  C3, as the code has it. On the example stores, with no fault injected: a push of a
  local store to the empty remote, then a pull into the emptied local store, both return
  nil. The fresh store then holds, at the concrete path of every relative path under the
  commit the repository is at, exactly the bytes the first store held there (none where
  it held none), a zero-byte file among them, and it holds nothing at any other path:
  push has uploaded every stored file under the commit of its own record, so the remote
  holds the files of every commit, but pull lists and fetches the files of the one
  revision. Both commands reach a file through the same \<^verbatim>\<open>FilePath\<close> of (commit, path).
  The commit identifiers have no separator in them, no stored file is the directory of
  another, and the tasks of either batch may complete in any order.
\<close>

theorem push_pull_roundtrip:
  assumes "faults w0 = []" and "remote_files w0 = []"
      and "CHR ''/'' \<notin> set (RepoCommitID (repository w0))"
      and "fst ` set (local_files w0) \<inter> c_Dir ` fst ` set (local_files w0) = {}"
      and "\<forall>xs. mset (order1 xs) = mset xs" and "\<forall>xs. mset (order2 xs) = mset xs"
  shows "fst (push_then_pull order1 order2 g w0) = Return None
       \<and> fst (snd (push_then_pull order1 order2 g w0)) = Return None
       \<and> (\<forall>p. map_of (local_files (snd (snd (push_then_pull order1 order2 g w0))))
                 (c_FilePath st (RepoCommitID (repository w0)) p) =
               map_of (local_files w0) (c_FilePath st (RepoCommitID (repository w0)) p))
       \<and> (\<forall>q. q \<notin> range (c_FilePath st (RepoCommitID (repository w0))) \<longrightarrow>
               map_of (local_files (snd (snd (push_then_pull order1 order2 g w0)))) q = None)
       \<and> (\<forall>c p. CHR ''/'' \<notin> set c \<longrightarrow>
               map_of (remote_files (snd (snd (push_then_pull order1 order2 g w0))))
                 (fileSpecOf (RepoURI (repository w0)) c p) =
               map_of (local_files w0) (c_FilePath st c p))"
proof -
  let ?push = "PushCmd_Execute (c_env order1) g \<lparr>PushList = False\<rparr> (start w0)"
  have p1: "\<forall>xs. set (order1 xs) = set xs" and p2: "\<forall>xs. set (order2 xs) = set xs"
    using assms(5,6) by (auto dest: mset_eq_setD)
  from c_push [OF assms(1,2) p1, of g st] obtain r where
    out1: "fst ?push = Return None"
    and w1: "world (snd ?push) = w0\<lparr>remote_files := r\<rparr>"
    and r: "\<forall>c p. CHR ''/'' \<notin> set c \<longrightarrow>
              map_of r (fileSpecOf (RepoURI (repository w0)) c p) =
              map_of (local_files w0) (c_FilePath st c p)"
    by blast
  let ?w = "fresh_local (world (snd ?push))"
  have w: "?w = w0\<lparr>remote_files := r, local_files := [], local_dirs := []\<rparr>"
    by (simp add: fresh_local_def w1)
  have c: "\<forall>p. map_of (remote_files ?w)
                  (fileSpecOf (RepoURI (repository ?w)) (RepoCommitID (repository ?w)) p) =
                map_of (local_files w0) (c_FilePath st (RepoCommitID (repository ?w)) p)"
    using r assms(3) by (simp add: w)
  from c_pull [of ?w order2 "local_files w0" st g False, OF _ _ _ p2 assms(4) c]
  have pull: "fst (PullCmd_Execute (c_env order2) g \<lparr>List = False, URLs = False\<rparr> (start ?w)) =
        Return None"
    "\<forall>p. map_of (local_files (world (snd (PullCmd_Execute (c_env order2) g
                    \<lparr>List = False, URLs = False\<rparr> (start ?w)))))
                 (c_FilePath st (RepoCommitID (repository w0)) p) =
               map_of (local_files w0) (c_FilePath st (RepoCommitID (repository w0)) p)"
    "\<forall>q. q \<notin> range (c_FilePath st (RepoCommitID (repository w0))) \<longrightarrow>
         map_of (local_files (world (snd (PullCmd_Execute (c_env order2) g
                    \<lparr>List = False, URLs = False\<rparr> (start ?w))))) q = None"
    "remote_files (world (snd (PullCmd_Execute (c_env order2) g
                    \<lparr>List = False, URLs = False\<rparr> (start ?w)))) = r"
    using assms(1) by (simp_all add: w)
  show ?thesis
    using out1 pull r by (simp add: push_then_pull_def case_prod_beta)
qed

text \<open>The sentence as the spec words it, for the files of the whole store, fails on the
  store of two commits: every hypothesis above holds of it, both commands return nil and
  \<^verbatim>\<open>c2/A\<close> reaches the remote, yet the fresh store has no \<^verbatim>\<open>c2/A\<close>.\<close>

theorem push_pull_loses_other_commit:
  "faults world_two_commits = [] \<and> remote_files world_two_commits = []
   \<and> CHR ''/'' \<notin> set (RepoCommitID (repository world_two_commits))
   \<and> fst ` set (local_files world_two_commits) \<inter>
       c_Dir ` fst ` set (local_files world_two_commits) = {}
   \<and> fst (push_then_pull id id quiet world_two_commits) = Return None
   \<and> fst (snd (push_then_pull id id quiet world_two_commits)) = Return None
   \<and> map_of (local_files world_two_commits) ''c2/A'' = Some ''zz''
   \<and> map_of (remote_files (snd (snd (push_then_pull id id quiet world_two_commits))))
         (fileSpecOf ''github.com/a/b'' ''c2'' ''A'') = Some ''zz''
   \<and> map_of (local_files (snd (snd (push_then_pull id id quiet world_two_commits)))) ''c2/A'' = None
   \<and> map_of (local_files (snd (snd (push_then_pull id id quiet world_two_commits)))) ''c1/A'' =
       Some ''0123456789''
   \<and> map_of (local_files (snd (snd (push_then_pull id id quiet world_two_commits)))) ''c1/B'' =
       Some []"
  by (simp add: push_then_pull_def fresh_local_def PushCmd_Execute_def PullCmd_Execute_def
      m_defs c_defs w_defs)

text \<open>The store of the ten-byte file \<^verbatim>\<open>A\<close> and the empty file \<^verbatim>\<open>B\<close>; the second batch
  completes in the reverse order.\<close>

theorem push_pull_roundtrip_witness:
  "faults world_local = [] \<and> remote_files world_local = []
   \<and> CHR ''/'' \<notin> set (RepoCommitID (repository world_local))
   \<and> fst ` set (local_files world_local) \<inter> c_Dir ` fst ` set (local_files world_local) = {}
   \<and> fst (push_then_pull id rev quiet world_local) = Return None
   \<and> fst (snd (push_then_pull id rev quiet world_local)) = Return None
   \<and> map_of (local_files (snd (snd (push_then_pull id rev quiet world_local)))) ''c1/A'' =
       Some ''0123456789''
   \<and> map_of (local_files (snd (snd (push_then_pull id rev quiet world_local)))) ''c1/B'' = Some []"
proof -
  have a: "faults world_local = []" "remote_files world_local = []"
    "CHR ''/'' \<notin> set (RepoCommitID (repository world_local))"
    by (simp_all add: w_defs)
  have b: "fst ` set (local_files world_local) \<inter> c_Dir ` fst ` set (local_files world_local) = {}"
    by (simp add: w_defs c_Dir_def Clean_def split_path_def clean_push_def not_slash_def)
  have c: "\<forall>xs::BuildDataFileInfo list. mset (id xs) = mset xs"
    "\<forall>xs::BuildDataFileInfo list. mset (rev xs) = mset xs"
    by simp_all
  have d: "c_FilePath store1 (RepoCommitID (repository world_local)) ''A'' = ''c1/A''"
    "c_FilePath store1 (RepoCommitID (repository world_local)) ''B'' = ''c1/B''"
    "map_of (local_files world_local) ''c1/A'' = Some ''0123456789''"
    "map_of (local_files world_local) ''c1/B'' = Some []"
    by (simp_all add: w_defs c_FilePath_def)
  let ?w2 = "snd (snd (push_then_pull id rev quiet world_local))"
  from push_pull_roundtrip [OF a b c, of quiet store1]
  have r: "fst (push_then_pull id rev quiet world_local) = Return None"
    "fst (snd (push_then_pull id rev quiet world_local)) = Return None"
    "\<forall>p. map_of (local_files ?w2) (c_FilePath store1 (RepoCommitID (repository world_local)) p) =
         map_of (local_files world_local)
           (c_FilePath store1 (RepoCommitID (repository world_local)) p)"
    by blast+
  from r(3) have "map_of (local_files ?w2) ''c1/A'' = Some ''0123456789''"
    unfolding d(1) [symmetric] d(3) [symmetric] by (rule spec)
  moreover from r(3) have "map_of (local_files ?w2) ''c1/B'' = Some []"
    unfolding d(2) [symmetric] d(4) [symmetric] by (rule spec)
  ultimately show ?thesis using a b r(1,2) by simp
qed

section \<open>The bound of the runner\<close>










end
